theory Spec2Isabelle
  imports Complex_Main
begin

section \<open>Python values\<close>

text \<open>
  The three modules consume the parsed JSON body of an HTTP response, typed
  \<^verbatim>\<open>Dict[str, Any]\<close>. A parsed JSON value is a \<open>json\<close>; a dict is kept as an
  association list that stands for the dict whose lookup is \<open>map_of\<close>.
  Strings are \<open>char list\<close>s, one \<open>char\<close> per code point, so the model covers the
  code points below 256. Exceptions are values of \<open>py_error\<close>; a function that can
  raise returns \<open>py_error + 'a\<close> with \<open>Inl\<close> for the raise.
\<close>

datatype py_error =
  TypeError | ValueError | KeyError | IndexError | AttributeError | OverflowError
  | TransportError

text \<open>
  A Python float is an IEEE binary64 value: a finite one is kept as the rational
  it denotes (the sign of zero is not kept), the others are the two infinities
  and NaN.
\<close>

datatype pyfloat = Fin rat | PInf | NInf | NaN

datatype json =
  JNull | JBool bool | JInt int | JFloat pyfloat | JStr string
  | JList "json list" | JDict "(string \<times> json) list"

text \<open>Truth value of an object, as \<^verbatim>\<open>if x\<close> and \<^verbatim>\<open>not x\<close> test it.\<close>

fun truthy :: "json \<Rightarrow> bool" where
  "truthy JNull = False"
| "truthy (JBool b) = b"
| "truthy (JInt i) = (i \<noteq> 0)"
| "truthy (JFloat f) = (f \<noteq> Fin 0)"
| "truthy (JStr s) = (s \<noteq> [])"
| "truthy (JList l) = (l \<noteq> [])"
| "truthy (JDict d) = (d \<noteq> [])"

text \<open>\<^verbatim>\<open>d.get(k, default)\<close> on a dict.\<close>

definition dict_get :: "(string \<times> json) list \<Rightarrow> string \<Rightarrow> json \<Rightarrow> json" where
  "dict_get d k dflt = (case map_of d k of None \<Rightarrow> dflt | Some v \<Rightarrow> v)"

text \<open>\<^verbatim>\<open>x.get(k, default)\<close> on any object: only a dict has the method.\<close>

fun py_get :: "json \<Rightarrow> string \<Rightarrow> json \<Rightarrow> py_error + json" where
  "py_get (JDict d) k dflt = Inr (dict_get d k dflt)"
| "py_get _ k dflt = Inl AttributeError"

text \<open>\<^verbatim>\<open>x[k]\<close> with a string key, and \<^verbatim>\<open>x[0]\<close>.\<close>

fun subscript_key :: "json \<Rightarrow> string \<Rightarrow> py_error + json" where
  "subscript_key (JDict d) k = (case map_of d k of None \<Rightarrow> Inl KeyError | Some v \<Rightarrow> Inr v)"
| "subscript_key _ k = Inl TypeError"

fun subscript_zero :: "json \<Rightarrow> py_error + json" where
  "subscript_zero (JList l) = (case l of [] \<Rightarrow> Inl IndexError | x # _ \<Rightarrow> Inr x)"
| "subscript_zero (JStr s) = (case s of [] \<Rightarrow> Inl IndexError | c # _ \<Rightarrow> Inr (JStr [c]))"
| "subscript_zero (JDict d) = Inl KeyError"
| "subscript_zero _ = Inl TypeError"

text \<open>
  \<^verbatim>\<open>len(x)\<close> and \<^verbatim>\<open>x[:10]\<close>. A dict cannot be sliced: the slice is not a
  key (TypeError; KeyError from Python 3.12 on, where a slice can be hashed).
\<close>

fun py_len :: "json \<Rightarrow> py_error + nat" where
  "py_len (JStr s) = Inr (length s)"
| "py_len (JList l) = Inr (length l)"
| "py_len (JDict d) = Inr (length (remdups (map fst d)))"
| "py_len _ = Inl TypeError"

fun py_slice10 :: "json \<Rightarrow> py_error + json" where
  "py_slice10 (JStr s) = Inr (JStr (take 10 s))"
| "py_slice10 (JList l) = Inr (JList (take 10 l))"
| "py_slice10 _ = Inl TypeError"

section \<open>Strings\<close>

definition is_space :: "char \<Rightarrow> bool" where
  "is_space c = (let n = (of_char c :: nat)
                 in (9 \<le> n \<and> n \<le> 13) \<or> (28 \<le> n \<and> n \<le> 32) \<or> n = 133 \<or> n = 160)"

definition is_digit :: "char \<Rightarrow> bool" where
  "is_digit c = (let n = (of_char c :: nat) in 48 \<le> n \<and> n \<le> 57)"

definition strip :: "string \<Rightarrow> string" where
  "strip s = rev (dropWhile is_space (rev (dropWhile is_space s)))"

definition rstrip_dot :: "string \<Rightarrow> string" where
  "rstrip_dot s = rev (dropWhile (\<lambda>c. c = CHR ''.'') (rev s))"

definition lower_char :: "char \<Rightarrow> char" where
  "lower_char c = (let n = (of_char c :: nat)
                   in if (65 \<le> n \<and> n \<le> 90) \<or> (192 \<le> n \<and> n \<le> 222 \<and> n \<noteq> 215)
                      then char_of (n + 32) else c)"

definition py_lower :: "string \<Rightarrow> string" where
  "py_lower s = map lower_char s"

definition starts_with :: "string \<Rightarrow> string \<Rightarrow> bool" where
  "starts_with p s = (take (length p) s = p)"

text \<open>\<^verbatim>\<open>p in s\<close> for two strings.\<close>

fun contains :: "string \<Rightarrow> string \<Rightarrow> bool" where
  "contains p [] = (p = [])"
| "contains p (c # cs) = (starts_with p (c # cs) \<or> contains p cs)"

text \<open>\<^verbatim>\<open>needle in x\<close> for a string needle and any object.\<close>

fun py_contains :: "string \<Rightarrow> json \<Rightarrow> py_error + bool" where
  "py_contains p (JStr s) = Inr (contains p s)"
| "py_contains p (JList l) = Inr (JStr p \<in> set l)"
| "py_contains p (JDict d) = Inr (p \<in> set (map fst d))"
| "py_contains p _ = Inl TypeError"

text \<open>The decimal digits of a number, as an f-string renders it.\<close>

fun dec_of_nat :: "nat \<Rightarrow> string" where
  "dec_of_nat n = (if n < 10 then [char_of (48 + n)]
                   else dec_of_nat (n div 10) @ [char_of (48 + n mod 10)])"

declare dec_of_nat.simps [simp del]

section \<open>Floats\<close>

text \<open>
  Arithmetic on finite floats is exact arithmetic followed by rounding to the
  nearest binary64 value, ties to even: \<open>fl\<close>. The exponent range is not
  bounded in \<open>fl\<close>; the one conversion that can overflow on a value a response
  can carry, \<^verbatim>\<open>float(int)\<close>, checks the bound itself.
\<close>

fun bitlen :: "nat \<Rightarrow> nat" where
  "bitlen n = (if n = 0 then 0 else Suc (bitlen (n div 2)))"

declare bitlen.simps [simp del]

text \<open>For \<open>0 < x\<close>, the exponent \<open>e\<close> with \<open>2 powi e \<le> x < 2 powi (e + 1)\<close>.\<close>

definition expo :: "rat \<Rightarrow> int" where
  "expo x = (if 1 \<le> x then int (bitlen (nat \<lfloor>x\<rfloor>)) - 1
             else - int (bitlen (nat (\<lceil>1 / x\<rceil> - 1))))"

text \<open>Rounding to the nearest integer, ties to even.\<close>

definition rhe :: "rat \<Rightarrow> int" where
  "rhe q = (let f = \<lfloor>q\<rfloor>; d = q - of_int f
            in if d < 1 / 2 then f else if 1 / 2 < d then f + 1
               else if even f then f else f + 1)"

definition flp :: "rat \<Rightarrow> rat" where
  "flp x = of_int (rhe (x / 2 powi (expo x - 52))) * 2 powi (expo x - 52)"

definition fl :: "rat \<Rightarrow> rat" where
  "fl x = (if x = 0 then 0 else if 0 < x then flp x else - flp (- x))"

text \<open>
  \<^verbatim>\<open>round(x, 2)\<close> on a float: the exact value is rounded to two decimals,
  ties to even, and the decimal is read back as a float.
\<close>

definition round2 :: "rat \<Rightarrow> rat" where
  "round2 x = fl (of_int (rhe (x * 100)) / 100)"

text \<open>Comparison of floats; every comparison with NaN is false.\<close>

fun py_lt :: "pyfloat \<Rightarrow> pyfloat \<Rightarrow> bool" where
  "py_lt NaN _ = False"
| "py_lt _ NaN = False"
| "py_lt (Fin a) (Fin b) = (a < b)"
| "py_lt (Fin a) PInf = True"
| "py_lt (Fin a) NInf = False"
| "py_lt PInf _ = False"
| "py_lt NInf NInf = False"
| "py_lt NInf _ = True"

text \<open>
  \<^verbatim>\<open>max(a, b)\<close> keeps \<open>a\<close> unless \<open>b > a\<close>; \<^verbatim>\<open>min(a, b)\<close> keeps \<open>a\<close>
  unless \<open>b < a\<close>.
\<close>

definition py_max :: "pyfloat \<Rightarrow> pyfloat \<Rightarrow> pyfloat" where
  "py_max a b = (if py_lt a b then b else a)"

definition py_min :: "pyfloat \<Rightarrow> pyfloat \<Rightarrow> pyfloat" where
  "py_min a b = (if py_lt b a then b else a)"

text \<open>
  \<^verbatim>\<open>float(k)\<close> for an int: the nearest float, and OverflowError from the
  first integer that rounds to \<open>2 ^ 1024\<close>.
\<close>

definition float_of_int :: "int \<Rightarrow> py_error + pyfloat" where
  "float_of_int k = (if 2 ^ 1024 - 2 ^ 970 \<le> \<bar>k\<bar> then Inl OverflowError
                     else Inr (Fin (fl (of_int k))))"

section \<open>Collaborators\<close>

text \<open>
  What the modules call and do not define is a parameter, collected in \<open>env\<close>:
  \<^item> \<open>urlparse\<close>: \<^verbatim>\<open>urllib.parse.urlparse\<close> on a string, giving the \<open>netloc\<close> and
    the \<open>path\<close>, or raising;
  \<^item> \<open>float_of_str\<close>: \<^verbatim>\<open>float(s)\<close> on a string, \<open>None\<close> for ValueError;
  \<^item> \<open>repr_float\<close>, \<open>repr_seq\<close>: the text \<^verbatim>\<open>str\<close> gives a float, and the text
    between the brackets of a list or the braces of a dict;
  \<^item> \<open>get_reddit_json\<close>: \<^verbatim>\<open>http.get_reddit_json(path, timeout=10, retries=1)\<close>,
    with the index of the task that calls it, since two calls on one path need
    not answer alike;
  \<^item> \<open>timestamp_to_date\<close>: \<^verbatim>\<open>dates.timestamp_to_date\<close>.
\<close>

record url_parts =
  netloc :: string
  path :: string

record env =
  urlparse :: "string \<Rightarrow> py_error + url_parts"
  float_of_str :: "string \<Rightarrow> pyfloat option"
  repr_float :: "pyfloat \<Rightarrow> string"
  repr_seq :: "json \<Rightarrow> string"
  get_reddit_json :: "nat \<Rightarrow> string \<Rightarrow> py_error + json"
  timestamp_to_date :: "json \<Rightarrow> py_error + json"

text \<open>\<^verbatim>\<open>urlparse(x)\<close> on any truthy object: one that is not a string has no \<^verbatim>\<open>decode\<close>.\<close>

definition urlparse_py :: "env \<Rightarrow> json \<Rightarrow> py_error + url_parts" where
  "urlparse_py e v = (case v of JStr s \<Rightarrow> urlparse e s | _ \<Rightarrow> Inl AttributeError)"

text \<open>\<^verbatim>\<open>str(x)\<close>.\<close>

definition py_str :: "env \<Rightarrow> json \<Rightarrow> string" where
  "py_str e v = (case v of
       JStr s \<Rightarrow> s
     | JNull \<Rightarrow> ''None''
     | JBool b \<Rightarrow> (if b then ''True'' else ''False'')
     | JInt i \<Rightarrow> (if i < 0 then CHR ''-'' # dec_of_nat (nat (- i)) else dec_of_nat (nat i))
     | JFloat f \<Rightarrow> repr_float e f
     | JList l \<Rightarrow> CHR ''['' # repr_seq e v @ '']''
     | JDict d \<Rightarrow> CHR ''{'' # repr_seq e v @ ''}'')"

text \<open>\<^verbatim>\<open>float(x)\<close>.\<close>

definition py_float :: "env \<Rightarrow> json \<Rightarrow> py_error + pyfloat" where
  "py_float e v = (case v of
       JFloat f \<Rightarrow> Inr f
     | JInt k \<Rightarrow> float_of_int k
     | JBool b \<Rightarrow> Inr (Fin (if b then 1 else 0))
     | JStr s \<Rightarrow> (case float_of_str e s of None \<Rightarrow> Inl ValueError | Some f \<Rightarrow> Inr f)
     | _ \<Rightarrow> Inl TypeError)"

section \<open>Domain filter\<close>

text \<open>
  \<^verbatim>\<open>EXCLUDED_DOMAINS\<close>, the same set in \<^verbatim>\<open>perplexity_search.py\<close> and
  \<^verbatim>\<open>tavily_search.py\<close>.
\<close>

definition EXCLUDED_DOMAINS :: "string set" where
  "EXCLUDED_DOMAINS =
     {''reddit.com'', ''www.reddit.com'', ''old.reddit.com'',
      ''twitter.com'', ''www.twitter.com'', ''x.com'', ''www.x.com''}"

text \<open>
  The \<^verbatim>\<open>try\<close> block both web normalizers run on a url: the lowercased netloc,
  the \<^verbatim>\<open>continue\<close> on an excluded one, the leading \<^verbatim>\<open>www.\<close> dropped, and the
  empty domain when anything raises.
\<close>

datatype domain_result = Excluded | Domain string

definition site_domain :: "env \<Rightarrow> json \<Rightarrow> domain_result" where
  "site_domain e url =
     (case urlparse_py e url of
        Inl _ \<Rightarrow> Domain []
      | Inr p \<Rightarrow>
          (let domain = py_lower (netloc p)
           in if domain \<in> EXCLUDED_DOMAINS then Excluded
              else if starts_with ''www.'' domain then Domain (drop 4 domain)
              else Domain domain))"

section \<open>The item schema of the web normalizers\<close>

record web_item =
  w_id :: string
  w_title :: string
  w_url :: json
  w_source_domain :: string
  w_snippet :: string
  w_date :: json
  w_date_confidence :: string
  w_relevance :: pyfloat
  w_why_relevant :: string

text \<open>
  A \<^verbatim>\<open>for\<close> loop over \<^verbatim>\<open>enumerate(xs)\<close> whose body appends one item,
  skips with \<^verbatim>\<open>continue\<close>, or raises: the first raise ends the loop.
\<close>

fun collect :: "(nat \<times> json \<Rightarrow> py_error + 'a option) \<Rightarrow> (nat \<times> json) list \<Rightarrow> py_error + 'a list" where
  "collect f [] = Inr []"
| "collect f (x # xs) =
     (case f x of
        Inl err \<Rightarrow> Inl err
      | Inr r \<Rightarrow>
          (case collect f xs of
             Inl err \<Rightarrow> Inl err
           | Inr rs \<Rightarrow> Inr (case r of None \<Rightarrow> rs | Some y \<Rightarrow> y # rs)))"

section \<open>perplexity\_search.py\<close>

text \<open>
  \<^verbatim>\<open>_get_content\<close>: \<^verbatim>\<open>response["choices"][0]["message"]["content"]\<close>, and the
  empty string on KeyError, IndexError or TypeError, the only errors the
  subscripts raise. What it returns is whatever sits at that path, a string or not.
\<close>

definition get_content :: "(string \<times> json) list \<Rightarrow> json" where
  "get_content response =
     (case subscript_key (JDict response) ''choices'' of
        Inl _ \<Rightarrow> JStr []
      | Inr choices \<Rightarrow>
          (case subscript_zero choices of
             Inl _ \<Rightarrow> JStr []
           | Inr choice \<Rightarrow>
               (case subscript_key choice ''message'' of
                  Inl _ \<Rightarrow> JStr []
                | Inr message \<Rightarrow>
                    (case subscript_key message ''content'' of
                       Inl _ \<Rightarrow> JStr []
                     | Inr content \<Rightarrow> content))))"

text \<open>The marker \<^verbatim>\<open>[N]\<close> of citation \<open>N\<close>.\<close>

definition marker :: "nat \<Rightarrow> string" where
  "marker n = CHR ''['' # dec_of_nat n @ '']''"

text \<open>
  \<^verbatim>\<open>len(re.findall(rf'\[{i}\](?!\d)', content))\<close>: the places where the marker
  stands and no digit follows. Two matches cannot overlap, since a marker holds
  one opening bracket.
\<close>

fun count_marker :: "string \<Rightarrow> string \<Rightarrow> nat" where
  "count_marker m [] = 0"
| "count_marker m (c # cs) =
     (if starts_with m (c # cs)
         \<and> (case drop (length m) (c # cs) of [] \<Rightarrow> True | d # _ \<Rightarrow> \<not> is_digit d)
      then 1 else 0) + count_marker m cs"

text \<open>
  \<^verbatim>\<open>_count_citation_references\<close>: the empty dict on a falsy content, else one
  count for each index from 1 to \<open>num_citations\<close>; \<^verbatim>\<open>re.findall\<close> raises TypeError
  on a content that is not a string.
\<close>

definition count_citation_references :: "json \<Rightarrow> nat \<Rightarrow> py_error + (nat \<rightharpoonup> nat)" where
  "count_citation_references content num_citations =
     (if \<not> truthy content then Inr Map.empty
      else if num_citations = 0 then Inr Map.empty
      else (case content of
              JStr s \<Rightarrow>
                Inr (\<lambda>i. if 1 \<le> i \<and> i \<le> num_citations then Some (count_marker (marker i) s)
                         else None)
            | _ \<Rightarrow> Inl TypeError))"

text \<open>
  \<^verbatim>\<open>re.search(rf'\[{index}\][)\s]*([^\[\n]{{5,80}})', content)\<close>, group 1. At the
  first marker that allows it, the greedy \<^verbatim>\<open>[)\s]*\<close> takes the longest run and
  gives characters back one at a time until 5 to 80 characters that are neither
  an opening bracket nor a newline follow.
\<close>

definition title_class :: "char \<Rightarrow> bool" where
  "title_class c = (c \<noteq> CHR ''['' \<and> c \<noteq> CHR 0x0A)"

definition paren_or_space :: "char \<Rightarrow> bool" where
  "paren_or_space c = (c = CHR '')'' \<or> is_space c)"

fun title_group :: "string \<Rightarrow> nat \<Rightarrow> string option" where
  "title_group rest 0 =
     (let g = take 80 (takeWhile title_class rest)
      in if 5 \<le> length g then Some g else None)"
| "title_group rest (Suc k) =
     (let g = take 80 (takeWhile title_class (drop (Suc k) rest))
      in if 5 \<le> length g then Some g else title_group rest k)"

fun re_search_title :: "string \<Rightarrow> string \<Rightarrow> string option" where
  "re_search_title m [] = None"
| "re_search_title m (c # cs) =
     (if starts_with m (c # cs)
      then (let rest = drop (length m) (c # cs)
            in case title_group rest (length (takeWhile paren_or_space rest)) of
                 Some g \<Rightarrow> Some g
               | None \<Rightarrow> re_search_title m cs)
      else re_search_title m cs)"

text \<open>\<^verbatim>\<open>re.sub(r'[*_`]', '', s)\<close>.\<close>

definition strip_markdown :: "string \<Rightarrow> string" where
  "strip_markdown s = filter (\<lambda>c. c \<noteq> CHR ''*'' \<and> c \<noteq> CHR ''_'' \<and> c \<noteq> CHR 0x60) s"

text \<open>\<^verbatim>\<open>_extract_title_for_citation\<close>.\<close>

definition extract_title_for_citation :: "json \<Rightarrow> nat \<Rightarrow> py_error + string option" where
  "extract_title_for_citation content index =
     (if \<not> truthy content then Inr None
      else (case content of
              JStr s \<Rightarrow>
                (case re_search_title (marker index) s of
                   Some g \<Rightarrow>
                     (let title = strip_markdown (rstrip_dot (strip g))
                      in Inr (if 3 < length title then Some title else None))
                 | None \<Rightarrow> Inr None)
            | _ \<Rightarrow> Inl TypeError))"

text \<open>
  \<^verbatim>\<open>re.search(rf'[^.]*\[{index}\][^.]*\.', content)\<close>, group 0: the first run of
  characters free of periods that holds the marker and is closed by a period,
  from its start to that period.
\<close>

fun re_search_snippet :: "string \<Rightarrow> string \<Rightarrow> string \<Rightarrow> string option" where
  "re_search_snippet m seg [] = None"
| "re_search_snippet m seg (c # cs) =
     (if c = CHR ''.''
      then (if contains m seg then Some (seg @ ''.'') else re_search_snippet m [] cs)
      else re_search_snippet m (seg @ [c]) cs)"

text \<open>
  \<^verbatim>\<open>re.sub(r'\[\d+\]', '', s)\<close>: \<open>pending\<close> holds an opening bracket and the
  digits read after it, until a closing bracket drops them or another character
  puts them back.
\<close>

fun strip_markers :: "string option \<Rightarrow> string \<Rightarrow> string" where
  "strip_markers None [] = []"
| "strip_markers (Some pending) [] = pending"
| "strip_markers None (c # cs) =
     (if c = CHR ''['' then strip_markers (Some [c]) cs else c # strip_markers None cs)"
| "strip_markers (Some pending) (c # cs) =
     (if is_digit c then strip_markers (Some (pending @ [c])) cs
      else if c = CHR '']'' \<and> 1 < length pending then strip_markers None cs
      else if c = CHR ''['' then pending @ strip_markers (Some [c]) cs
      else pending @ c # strip_markers None cs)"

text \<open>\<^verbatim>\<open>_extract_snippet_for_citation\<close>.\<close>

definition extract_snippet_for_citation :: "json \<Rightarrow> nat \<Rightarrow> py_error + string option" where
  "extract_snippet_for_citation content index =
     (if \<not> truthy content then Inr None
      else (case content of
              JStr s \<Rightarrow>
                (case re_search_snippet (marker index) [] s of
                   Some g \<Rightarrow>
                     (let snippet = strip_markdown (strip (strip_markers None (strip g)))
                      in Inr (if 10 < length snippet then Some snippet else None))
                 | None \<Rightarrow> Inr None)
            | _ \<Rightarrow> Inl TypeError))"

text \<open>
  The relevance of the citation at position \<open>i\<close> of \<open>n\<close> with \<open>ref_count\<close>
  references (lines 123 to 126), every operation rounded as Python rounds it:
  \<^verbatim>\<open>i / max(n, 1)\<close> is the correctly rounded quotient of two ints, and
  \<^verbatim>\<open>(ref_count - 1) * 0.05\<close> converts the int first.
\<close>

definition rat_max :: "rat \<Rightarrow> rat \<Rightarrow> rat" where
  "rat_max a b = (if a < b then b else a)"

definition rat_min :: "rat \<Rightarrow> rat \<Rightarrow> rat" where
  "rat_min a b = (if b < a then b else a)"

definition position_score :: "nat \<Rightarrow> nat \<Rightarrow> rat" where
  "position_score i n = rat_max 0 (fl (1 - fl (of_nat i / of_nat (max n 1))))"

definition ref_bonus :: "nat \<Rightarrow> rat" where
  "ref_bonus ref_count =
     rat_min (fl (1 / 10)) (fl (fl (of_int (int ref_count - 1)) * fl (5 / 100)))"

definition citation_relevance :: "nat \<Rightarrow> nat \<Rightarrow> nat \<Rightarrow> rat" where
  "citation_relevance i n ref_count =
     round2 (fl (fl (fl (55 / 100) + fl (fl (35 / 100) * position_score i n))
                 + ref_bonus ref_count))"

text \<open>\<^verbatim>\<open>citation_counts.get(i + 1, 1)\<close>.\<close>

definition ref_count_of :: "(nat \<rightharpoonup> nat) \<Rightarrow> nat \<Rightarrow> nat" where
  "ref_count_of citation_counts k = (case citation_counts k of None \<Rightarrow> 1 | Some c \<Rightarrow> c)"

text \<open>The body of the loop of \<^verbatim>\<open>_normalize_results\<close> (lines 102 to 138).\<close>

definition citation_item ::
  "env \<Rightarrow> json \<Rightarrow> nat \<Rightarrow> (nat \<rightharpoonup> nat) \<Rightarrow> nat \<times> json \<Rightarrow> py_error + web_item option" where
  "citation_item e content n citation_counts p =
     (case p of (i, url) \<Rightarrow>
        (case url of
           JStr u \<Rightarrow>
             (if u = [] then Inr None
              else (case site_domain e url of
                      Excluded \<Rightarrow> Inr None
                    | Domain domain \<Rightarrow>
                        (case extract_title_for_citation content (i + 1) of
                           Inl err \<Rightarrow> Inl err
                         | Inr t \<Rightarrow>
                             (case extract_snippet_for_citation content (i + 1) of
                                Inl err \<Rightarrow> Inl err
                              | Inr sn \<Rightarrow>
                                  Inr (Some
                                    \<lparr>w_id = CHR ''W'' # dec_of_nat (i + 1),
                                     w_title = take 200 (case t of Some x \<Rightarrow> x | None \<Rightarrow> domain),
                                     w_url = url,
                                     w_source_domain = domain,
                                     w_snippet = (case sn of Some x \<Rightarrow> take 500 x | None \<Rightarrow> []),
                                     w_date = JNull,
                                     w_date_confidence = ''low'',
                                     w_relevance =
                                       Fin (citation_relevance i n
                                              (ref_count_of citation_counts (i + 1))),
                                     w_why_relevant = []\<rparr>)))))
         | _ \<Rightarrow> Inr None))"

text \<open>\<^verbatim>\<open>_normalize_results\<close> of \<^verbatim>\<open>perplexity_search.py\<close>.\<close>

definition normalize_results_perplexity ::
  "env \<Rightarrow> (string \<times> json) list \<Rightarrow> py_error + web_item list" where
  "normalize_results_perplexity e response =
     (let citations = dict_get response ''citations'' (JList []);
          content = get_content response
      in case citations of
           JList cs \<Rightarrow>
             (if cs = [] then Inr []
              else (case count_citation_references content (length cs) of
                      Inl err \<Rightarrow> Inl err
                    | Inr citation_counts \<Rightarrow>
                        collect (citation_item e content (length cs) citation_counts)
                          (enumerate 0 cs)))
         | _ \<Rightarrow> Inr [])"

section \<open>What the two Tavily normalizers share\<close>

text \<open>
  \<^verbatim>\<open>str(result.get(key, "")).strip()\<close>.
\<close>

definition text_field :: "env \<Rightarrow> (string \<times> json) list \<Rightarrow> string \<Rightarrow> string" where
  "text_field e result key = strip (py_str e (dict_get result key (JStr [])))"

text \<open>
  The relevance block: \<^verbatim>\<open>result.get("score", 0.6)\<close>, then
  \<^verbatim>\<open>min(1.0, max(0.0, float(relevance)))\<close> with 0.6 on TypeError and ValueError.
  No other error is caught.
\<close>

definition score_relevance :: "env \<Rightarrow> (string \<times> json) list \<Rightarrow> py_error + pyfloat" where
  "score_relevance e result =
     (case py_float e (dict_get result ''score'' (JFloat (Fin (fl (6 / 10))))) of
        Inl err \<Rightarrow> (if err = TypeError \<or> err = ValueError then Inr (Fin (fl (6 / 10)))
                   else Inl err)
      | Inr f \<Rightarrow> Inr (py_min (Fin 1) (py_max (Fin 0) f)))"

text \<open>
  The date block: \<^verbatim>\<open>date = result.get("published_date")\<close>, then
  \<^verbatim>\<open>if date and len(date) >= 10: date = date[:10]\<close>.
\<close>

definition trim_date :: "(string \<times> json) list \<Rightarrow> py_error + json" where
  "trim_date result =
     (let date = dict_get result ''published_date'' JNull
      in if truthy date
         then (case py_len date of
                 Inl err \<Rightarrow> Inl err
               | Inr n \<Rightarrow> if 10 \<le> n then py_slice10 date else Inr date)
         else Inr date)"

section \<open>tavily\_search.py\<close>

text \<open>The body of the loop of \<^verbatim>\<open>_normalize_results\<close> (lines 83 to 130).\<close>

definition result_item :: "env \<Rightarrow> nat \<times> json \<Rightarrow> py_error + web_item option" where
  "result_item e p =
     (case p of (i, r) \<Rightarrow>
        (case r of
           JDict result \<Rightarrow>
             (let url = dict_get result ''url'' (JStr [])
              in if \<not> truthy url then Inr None
                 else (case site_domain e url of
                         Excluded \<Rightarrow> Inr None
                       | Domain domain \<Rightarrow>
                           (let title = text_field e result ''title'';
                                snippet = text_field e result ''content''
                            in if title = [] \<and> snippet = [] then Inr None
                               else (case score_relevance e result of
                                       Inl err \<Rightarrow> Inl err
                                     | Inr relevance \<Rightarrow>
                                         (case trim_date result of
                                            Inl err \<Rightarrow> Inl err
                                          | Inr date \<Rightarrow>
                                              Inr (Some
                                                \<lparr>w_id = CHR ''W'' # dec_of_nat (i + 1),
                                                 w_title = take 200 title,
                                                 w_url = url,
                                                 w_source_domain = domain,
                                                 w_snippet = take 500 snippet,
                                                 w_date = date,
                                                 w_date_confidence =
                                                   (if truthy date then ''med'' else ''low''),
                                                 w_relevance = relevance,
                                                 w_why_relevant = []\<rparr>))))))
         | _ \<Rightarrow> Inr None))"

text \<open>\<^verbatim>\<open>_normalize_results\<close> of \<^verbatim>\<open>tavily_search.py\<close>.\<close>

definition normalize_results_tavily ::
  "env \<Rightarrow> (string \<times> json) list \<Rightarrow> py_error + web_item list" where
  "normalize_results_tavily e response =
     (case dict_get response ''results'' (JList []) of
        JList results \<Rightarrow> collect (result_item e) (enumerate 0 results)
      | _ \<Rightarrow> Inr [])"

section \<open>tavily\_reddit.py\<close>

record reddit_item =
  r_id :: string
  r_title :: string
  r_url :: json
  r_subreddit :: string
  r_date :: json
  r_why_relevant :: string
  r_relevance :: pyfloat

text \<open>\<^verbatim>\<open>_extract_reddit_path\<close>; a raise of \<^verbatim>\<open>urlparse\<close> is caught.\<close>

definition extract_reddit_path :: "env \<Rightarrow> json \<Rightarrow> string option" where
  "extract_reddit_path e url =
     (case urlparse_py e url of
        Inl _ \<Rightarrow> None
      | Inr p \<Rightarrow> if contains ''/r/'' (path p) \<and> contains ''/comments/'' (path p)
                 then Some (path p) else None)"

text \<open>
  \<^verbatim>\<open>_fetch_date_from_reddit\<close> for the task of the item at \<open>idx\<close>. Whatever raises
  after the path is known is caught by \<^verbatim>\<open>except Exception\<close>, and the function
  returns None.
\<close>

definition fetch_date_from_reddit :: "env \<Rightarrow> nat \<Rightarrow> json \<Rightarrow> json" where
  "fetch_date_from_reddit e idx url =
     (case extract_reddit_path e url of
        None \<Rightarrow> JNull
      | Some pth \<Rightarrow>
          (if pth = [] then JNull
           else (case get_reddit_json e idx pth of
                   Inl _ \<Rightarrow> JNull
                 | Inr data \<Rightarrow>
                     (case data of
                        JList (first # _) \<Rightarrow>
                          (case py_get first ''data'' (JDict []) of
                             Inl _ \<Rightarrow> JNull
                           | Inr listing \<Rightarrow>
                               (case py_get listing ''children'' (JList []) of
                                  Inl _ \<Rightarrow> JNull
                                | Inr children \<Rightarrow>
                                    (if truthy children
                                     then (case subscript_zero children of
                                             Inl _ \<Rightarrow> JNull
                                           | Inr child \<Rightarrow>
                                               (case py_get child ''data'' (JDict []) of
                                                  Inl _ \<Rightarrow> JNull
                                                | Inr post \<Rightarrow>
                                                    (case py_get post ''created_utc'' JNull of
                                                       Inl _ \<Rightarrow> JNull
                                                     | Inr created_utc \<Rightarrow>
                                                         (case timestamp_to_date e created_utc of
                                                            Inl _ \<Rightarrow> JNull
                                                          | Inr d \<Rightarrow> d))))
                                     else JNull)))
                      | _ \<Rightarrow> JNull))))"

text \<open>
  \<^verbatim>\<open>_enrich_dates\<close>. The items are the dicts \<^verbatim>\<open>parse_reddit_response\<close> builds,
  which all carry the seven keys. One task is submitted for each item whose date
  is falsy; the task of index \<open>idx\<close> writes to \<open>items[idx]\<close> only, so the order
  in which the tasks complete does not show in the result, and the model patches
  in list order. The second component is the list of the urls for which a task
  was submitted.
\<close>

definition items_needing_dates :: "reddit_item list \<Rightarrow> (nat \<times> reddit_item) list" where
  "items_needing_dates items = filter (\<lambda>p. \<not> truthy (r_date (snd p))) (enumerate 0 items)"

definition patch_date :: "env \<Rightarrow> reddit_item list \<Rightarrow> nat \<times> reddit_item \<Rightarrow> reddit_item list" where
  "patch_date e items p =
     (let date = fetch_date_from_reddit e (fst p) (r_url (snd p))
      in if truthy date then items[fst p := (items ! fst p)\<lparr>r_date := date\<rparr>] else items)"

text \<open>
  \<^verbatim>\<open>max_workers = min(5, len(items_needing_dates))\<close>, the size the pool is
  created with. It is computed only when some item needs a date.
\<close>

definition max_workers :: "reddit_item list \<Rightarrow> nat" where
  "max_workers items = min 5 (length (items_needing_dates items))"

definition enrich_dates :: "env \<Rightarrow> reddit_item list \<Rightarrow> reddit_item list \<times> json list" where
  "enrich_dates e items =
     (let needing = items_needing_dates items
      in if needing = [] then (items, [])
         else (foldl (patch_date e) items needing, map (\<lambda>p. r_url (snd p)) needing))"

text \<open>\<^verbatim>\<open>re.search(r'/r/([^/]+)', path)\<close>, group 1.\<close>

fun re_search_subreddit :: "string \<Rightarrow> string option" where
  "re_search_subreddit [] = None"
| "re_search_subreddit (c # cs) =
     (let g = takeWhile (\<lambda>x. x \<noteq> CHR ''/'') (drop 3 (c # cs))
      in if starts_with ''/r/'' (c # cs) \<and> g \<noteq> [] then Some g else re_search_subreddit cs)"

definition subreddit_of :: "env \<Rightarrow> json \<Rightarrow> string" where
  "subreddit_of e url =
     (case urlparse_py e url of
        Inl _ \<Rightarrow> []
      | Inr p \<Rightarrow> (case re_search_subreddit (path p) of None \<Rightarrow> [] | Some g \<Rightarrow> g))"

text \<open>
  \<^verbatim>\<open>re.match(r'^\d{4}-\d{2}-\d{2}$', s)\<close>: the ten characters of the shape, and
  at most one newline after them.
\<close>

definition iso_shape :: "string \<Rightarrow> bool" where
  "iso_shape s =
     (length s = 10
      \<and> is_digit (s ! 0) \<and> is_digit (s ! 1) \<and> is_digit (s ! 2) \<and> is_digit (s ! 3)
      \<and> s ! 4 = CHR ''-'' \<and> is_digit (s ! 5) \<and> is_digit (s ! 6)
      \<and> s ! 7 = CHR ''-'' \<and> is_digit (s ! 8) \<and> is_digit (s ! 9))"

definition iso_match :: "string \<Rightarrow> bool" where
  "iso_match s = (if length s = 11 then iso_shape (take 10 s) \<and> s ! 10 = CHR 0x0A
                  else iso_shape s)"

text \<open>The date block of \<^verbatim>\<open>parse_reddit_response\<close> (lines 212 to 216).\<close>

definition reddit_date :: "env \<Rightarrow> (string \<times> json) list \<Rightarrow> py_error + json" where
  "reddit_date e result =
     (case trim_date result of
        Inl err \<Rightarrow> Inl err
      | Inr date \<Rightarrow> Inr (if truthy date \<and> \<not> iso_match (py_str e date) then JNull else date))"

text \<open>The body of the loop of \<^verbatim>\<open>parse_reddit_response\<close> (lines 187 to 233).\<close>

definition reddit_result_item :: "env \<Rightarrow> nat \<times> json \<Rightarrow> py_error + reddit_item option" where
  "reddit_result_item e p =
     (case p of (i, r) \<Rightarrow>
        (case r of
           JDict result \<Rightarrow>
             (let url = dict_get result ''url'' (JStr [])
              in if \<not> truthy url then Inr None
                 else (case py_contains ''reddit.com'' url of
                         Inl err \<Rightarrow> Inl err
                       | Inr found \<Rightarrow>
                           (if \<not> found then Inr None
                            else (let t = text_field e result ''title'';
                                      title = (if t = [] then take 100 (text_field e result ''content'')
                                               else t)
                                  in if title = [] then Inr None
                                     else (case reddit_date e result of
                                             Inl err \<Rightarrow> Inl err
                                           | Inr date \<Rightarrow>
                                               (case score_relevance e result of
                                                  Inl err \<Rightarrow> Inl err
                                                | Inr relevance \<Rightarrow>
                                                    Inr (Some
                                                      \<lparr>r_id = CHR ''R'' # dec_of_nat (i + 1),
                                                       r_title = take 200 title,
                                                       r_url = url,
                                                       r_subreddit = subreddit_of e url,
                                                       r_date = date,
                                                       r_why_relevant = [],
                                                       r_relevance = relevance\<rparr>)))))))
         | _ \<Rightarrow> Inr None))"

text \<open>
  \<^verbatim>\<open>parse_reddit_response\<close>: the items, and the urls for which the enrichment
  submitted a task.
\<close>

definition parse_reddit_response ::
  "env \<Rightarrow> (string \<times> json) list \<Rightarrow> py_error + reddit_item list \<times> json list" where
  "parse_reddit_response e response =
     (case dict_get response ''results'' (JList []) of
        JList results \<Rightarrow>
          (case collect (reddit_result_item e) (enumerate 0 results) of
             Inl err \<Rightarrow> Inl err
           | Inr items \<Rightarrow> Inr (if items = [] then (items, []) else enrich_dates e items))
      | _ \<Rightarrow> Inr ([], []))"

section \<open>An environment and responses to run the code on\<close>

text \<open>
  \<open>urlparse_plain\<close> is what \<^verbatim>\<open>urlparse\<close> answers on a url of printable ASCII
  characters with no bracket in the netloc and no semicolon in the path: the
  scheme up to the first colon, the netloc between \<^verbatim>\<open>//\<close> and the next of
  \<^verbatim>\<open>/ ? #\<close>, the path up to the query or the fragment.
\<close>

definition scheme_char :: "char \<Rightarrow> bool" where
  "scheme_char c = (let n = (of_char c :: nat)
                    in (97 \<le> n \<and> n \<le> 122) \<or> (65 \<le> n \<and> n \<le> 90) \<or> (48 \<le> n \<and> n \<le> 57)
                       \<or> c = CHR ''+'' \<or> c = CHR ''-'' \<or> c = CHR ''.'')"

definition ascii_letter :: "char \<Rightarrow> bool" where
  "ascii_letter c = (let n = (of_char c :: nat)
                     in (97 \<le> n \<and> n \<le> 122) \<or> (65 \<le> n \<and> n \<le> 90))"

definition netloc_char :: "char \<Rightarrow> bool" where
  "netloc_char c = (c \<noteq> CHR ''/'' \<and> c \<noteq> CHR ''?'' \<and> c \<noteq> CHR ''#'')"

definition path_char :: "char \<Rightarrow> bool" where
  "path_char c = (c \<noteq> CHR ''?'' \<and> c \<noteq> CHR ''#'')"

definition urlparse_plain :: "string \<Rightarrow> py_error + url_parts" where
  "urlparse_plain s =
     (let pre = takeWhile (\<lambda>c. c \<noteq> CHR '':'') s;
          r = (if pre \<noteq> [] \<and> length pre < length s \<and> ascii_letter (hd pre)
                  \<and> list_all scheme_char pre
               then drop (length pre + 1) s else s)
      in if starts_with ''//'' r
         then Inr \<lparr>netloc = takeWhile netloc_char (drop 2 r),
                   path = takeWhile path_char (dropWhile netloc_char (drop 2 r))\<rparr>
         else Inr \<lparr>netloc = [], path = takeWhile path_char r\<rparr>)"

text \<open>
  The answer of Reddit's JSON endpoint for a post: a list of two listings, the
  first holding the post with its \<^verbatim>\<open>created_utc\<close>.
\<close>

definition post_listing :: json where
  "post_listing =
     JList [JDict [(''data'', JDict [(''children'',
              JList [JDict [(''data'', JDict [(''created_utc'', JInt 1705312800)])]])])],
            JDict []]"

text \<open>
  An environment in which the endpoint answers the task of index 0 and fails
  for every other one, no string reads as a float, and a timestamp that is an
  int becomes one fixed date. The responses below hold no float, list or dict
  where \<^verbatim>\<open>str\<close> is applied, so the texts of those are left constant.
\<close>

definition env0 :: env where
  "env0 =
     \<lparr>urlparse = urlparse_plain,
      float_of_str = (\<lambda>s. None),
      repr_float = (\<lambda>f. ''0.0''),
      repr_seq = (\<lambda>v. []),
      get_reddit_json = (\<lambda>idx p. if idx = 0 then Inr post_listing else Inl TransportError),
      timestamp_to_date = (\<lambda>v. case v of JInt _ \<Rightarrow> Inr (JStr ''2024-01-15'') | _ \<Rightarrow> Inr JNull)\<rparr>"

text \<open>The response of section 8 of the specification: two citations, \<^verbatim>\<open>[1]\<close> twice.\<close>

definition sonar_response :: "(string \<times> json) list" where
  "sonar_response =
     [(''citations'', JList [JStr ''https://a.example/p1'', JStr ''https://b.example/p2'']),
      (''choices'', JList [JDict [(''message'', JDict [(''content'',
          JStr ''... [1] First Article is great. More on [2] Second Article. Also [1] again.'')])]])]"

text \<open>One citation, and a text that never refers to it.\<close>

definition sonar_unreferenced :: "(string \<times> json) list" where
  "sonar_unreferenced =
     [(''citations'', JList [JStr ''https://a.example/p1'']),
      (''choices'', JList [JDict [(''message'', JDict [(''content'',
          JStr ''A summary without any marker.'')])]])]"


text \<open>Tavily results: a plain one, one with a number as date, one with no title.\<close>

definition tavily_plain :: "(string \<times> json) list" where
  "tavily_plain =
     [(''results'', JList [JDict [(''url'', JStr ''https://www.example.com/post''),
                                  (''title'', JStr '' A post ''),
                                  (''content'', JStr ''Body text''),
                                  (''score'', JFloat (Fin (7 / 5))),
                                  (''published_date'', JStr ''2024/13/40'')]])]"

definition tavily_numeric_date :: "(string \<times> json) list" where
  "tavily_numeric_date =
     [(''results'', JList [JDict [(''url'', JStr ''https://example.com/a''),
                                  (''title'', JStr ''t''),
                                  (''published_date'', JInt 20240115)]])]"


text \<open>
  Reddit results: two posts, the first without a date and the second with one
  that fails the pattern; and one result whose url is a list.
\<close>

definition reddit_posts :: "(string \<times> json) list" where
  "reddit_posts =
     [(''results'', JList [JDict [(''url'', JStr ''https://www.reddit.com/r/python/comments/abc/hello''),
                                  (''title'', JStr ''Hello'')],
                           JDict [(''url'', JStr ''https://www.reddit.com/r/rust/comments/def/bye''),
                                  (''content'', JStr ''Bye''),
                                  (''score'', JInt 3),
                                  (''published_date'', JStr ''2024/13/40'')],
                           JDict [(''url'', JStr ''https://old.reddit.com/r/ml/comments/ghi/x''),
                                  (''title'', JStr ''Dated''),
                                  (''published_date'', JStr ''2024-02-03T10:00:00Z'')]])]"

definition reddit_list_url :: "(string \<times> json) list" where
  "reddit_list_url =
     [(''results'', JList [JDict [(''url'', JList [JStr ''reddit.com'']),
                                  (''title'', JStr ''t'')]])]"

definition reddit_numeric_date :: "(string \<times> json) list" where
  "reddit_numeric_date =
     [(''results'', JList [JDict [(''url'', JStr ''https://www.reddit.com/r/python/comments/abc/hello''),
                                  (''title'', JStr ''t''),
                                  (''published_date'', JInt 20240115)]])]"

text \<open>A score that is an integer of 1025 bits.\<close>

definition tavily_huge_score :: "(string \<times> json) list" where
  "tavily_huge_score =
     [(''results'', JList [JDict [(''url'', JStr ''https://example.com/a''),
                                  (''title'', JStr ''t''),
                                  (''score'', JInt (2 ^ 1024))]])]"

definition sonar_numeric_content :: "(string \<times> json) list" where
  "sonar_numeric_content =
     [(''citations'', JList [JStr ''https://a.example/p1'']),
      (''choices'', JList [JDict [(''message'', JDict [(''content'', JInt 5)])]])]"

section \<open>Properties of items\<close>

text \<open>A float between 0.0 and 1.0: finite, and its value in the unit interval.\<close>

definition in_unit_interval :: "pyfloat \<Rightarrow> bool" where
  "in_unit_interval f = (case f of Fin r \<Rightarrow> 0 \<le> r \<and> r \<le> 1 | _ \<Rightarrow> False)"

text \<open>Two items that agree on every field but the date.\<close>

definition same_but_date :: "reddit_item \<Rightarrow> reddit_item \<Rightarrow> bool" where
  "same_but_date a b =
     (r_id b = r_id a \<and> r_title b = r_title a \<and> r_url b = r_url a
      \<and> r_subreddit b = r_subreddit a \<and> r_why_relevant b = r_why_relevant a
      \<and> r_relevance b = r_relevance a)"

text \<open>A date that is a string of the shape \<^verbatim>\<open>YYYY-MM-DD\<close>.\<close>

definition iso_date :: "json \<Rightarrow> bool" where
  "iso_date d = (case d of JStr s \<Rightarrow> iso_shape s | _ \<Rightarrow> False)"

section \<open>What the code answers on the responses\<close>

text \<open>The citations of a response, and how often its text refers to citation \<open>k\<close>.\<close>

definition citations_of :: "(string \<times> json) list \<Rightarrow> json list" where
  "citations_of response =
     (case dict_get response ''citations'' (JList []) of JList cs \<Rightarrow> cs | _ \<Rightarrow> [])"

definition times_referenced :: "(string \<times> json) list \<Rightarrow> nat \<Rightarrow> nat" where
  "times_referenced response k =
     (case get_content response of JStr s \<Rightarrow> count_marker (marker k) s | _ \<Rightarrow> 0)"


definition sonar_items :: "web_item list" where
  "sonar_items =
     [\<lparr>w_id = ''W1'', w_title = ''First Article is great. More on'',
       w_url = JStr ''https://a.example/p1'', w_source_domain = ''a.example'',
       w_snippet = ''First Article is great.'', w_date = JNull,
       w_date_confidence = ''low'', w_relevance = Fin (fl (95 / 100)),
       w_why_relevant = []\<rparr>,
      \<lparr>w_id = ''W2'', w_title = ''Second Article. Also'',
       w_url = JStr ''https://b.example/p2'', w_source_domain = ''b.example'',
       w_snippet = ''More on  Second Article.'', w_date = JNull,
       w_date_confidence = ''low'', w_relevance = Fin (fl (73 / 100)),
       w_why_relevant = []\<rparr>]"

definition sonar_unreferenced_item :: web_item where
  "sonar_unreferenced_item =
     \<lparr>w_id = ''W1'', w_title = ''a.example'', w_url = JStr ''https://a.example/p1'',
      w_source_domain = ''a.example'', w_snippet = [], w_date = JNull,
      w_date_confidence = ''low'', w_relevance = Fin (fl (85 / 100)),
      w_why_relevant = []\<rparr>"


definition tavily_plain_item :: web_item where
  "tavily_plain_item =
     \<lparr>w_id = ''W1'', w_title = ''A post'', w_url = JStr ''https://www.example.com/post'',
      w_source_domain = ''example.com'', w_snippet = ''Body text'',
      w_date = JStr ''2024/13/40'', w_date_confidence = ''med'', w_relevance = Fin 1,
      w_why_relevant = []\<rparr>"


text \<open>Two results, the first on a denylisted host.\<close>

definition tavily_mixed :: "(string \<times> json) list" where
  "tavily_mixed =
     [(''results'', JList [JDict [(''url'', JStr ''https://WWW.Reddit.com/r/python/comments/abc/hello''),
                                  (''title'', JStr ''Hello'')],
                           JDict [(''url'', JStr ''https://www.example.com/post''),
                                  (''title'', JStr ''A post'')]])]"

definition tavily_mixed_item :: web_item where
  "tavily_mixed_item =
     \<lparr>w_id = ''W2'', w_title = ''A post'', w_url = JStr ''https://www.example.com/post'',
      w_source_domain = ''example.com'', w_snippet = [], w_date = JNull,
      w_date_confidence = ''low'', w_relevance = Fin (fl (6 / 10)), w_why_relevant = []\<rparr>"

text \<open>The three items of \<open>reddit_posts\<close> as the loop builds them, and as returned.\<close>

definition post_hello :: reddit_item where
  "post_hello =
     \<lparr>r_id = ''R1'', r_title = ''Hello'',
      r_url = JStr ''https://www.reddit.com/r/python/comments/abc/hello'',
      r_subreddit = ''python'', r_date = JNull, r_why_relevant = [],
      r_relevance = Fin (fl (6 / 10))\<rparr>"

definition post_bye :: reddit_item where
  "post_bye =
     \<lparr>r_id = ''R2'', r_title = ''Bye'',
      r_url = JStr ''https://www.reddit.com/r/rust/comments/def/bye'',
      r_subreddit = ''rust'', r_date = JNull, r_why_relevant = [], r_relevance = Fin 1\<rparr>"

definition post_dated :: reddit_item where
  "post_dated =
     \<lparr>r_id = ''R3'', r_title = ''Dated'',
      r_url = JStr ''https://old.reddit.com/r/ml/comments/ghi/x'',
      r_subreddit = ''ml'', r_date = JStr ''2024-02-03'', r_why_relevant = [],
      r_relevance = Fin (fl (6 / 10))\<rparr>"

text \<open>One Reddit result that carries a date, and the item it yields.\<close>

definition reddit_dated :: "(string \<times> json) list" where
  "reddit_dated =
     [(''results'', JList [JDict [(''url'', JStr ''https://old.reddit.com/r/ml/comments/ghi/x''),
                                  (''title'', JStr ''Dated''),
                                  (''published_date'', JStr ''2024-02-03T10:00:00Z'')]])]"

definition reddit_dated_item :: reddit_item where
  "reddit_dated_item =
     \<lparr>r_id = ''R1'', r_title = ''Dated'',
      r_url = JStr ''https://old.reddit.com/r/ml/comments/ghi/x'',
      r_subreddit = ''ml'', r_date = JStr ''2024-02-03'', r_why_relevant = [],
      r_relevance = Fin (fl (6 / 10))\<rparr>"

definition reddit_list_url_item :: reddit_item where
  "reddit_list_url_item =
     \<lparr>r_id = ''R1'', r_title = ''t'', r_url = JList [JStr ''reddit.com''],
      r_subreddit = [], r_date = JNull, r_why_relevant = [],
      r_relevance = Fin (fl (6 / 10))\<rparr>"





section \<open>Rounding is monotone\<close>

lemma bitlen_upper: "n < 2 ^ bitlen n"
proof (induction n rule: bitlen.induct)
  case (1 n)
  show ?case
  proof (cases "n = 0")
    case True
    then show ?thesis by (simp add: bitlen.simps)
  next
    case False
    with 1 have "n div 2 < 2 ^ bitlen (n div 2)" by simp
    then have "n < 2 * 2 ^ bitlen (n div 2)" by linarith
    with False show ?thesis by (simp add: bitlen.simps [of n])
  qed
qed

lemma bitlen_lower: "0 < n \<Longrightarrow> 2 ^ (bitlen n - 1) \<le> n"
proof (induction n rule: bitlen.induct)
  case (1 n)
  then have n: "n \<noteq> 0" by simp
  show ?case
  proof (cases "n div 2 = 0")
    case True
    with n show ?thesis by (simp add: bitlen.simps [of n] bitlen.simps [of 0])
  next
    case False
    with 1 n have ih: "2 ^ (bitlen (n div 2) - 1) \<le> n div 2" by simp
    from False have "bitlen (n div 2) \<noteq> 0" by (simp add: bitlen.simps [of "n div 2"])
    then obtain k where k: "bitlen (n div 2) = Suc k" by (cases "bitlen (n div 2)") auto
    with ih have "2 ^ k \<le> n div 2" by simp
    then have "2 * 2 ^ k \<le> n" by linarith
    with n k show ?thesis by (simp add: bitlen.simps [of n])
  qed
qed

lemma bitlen_pos: "0 < n \<Longrightarrow> 0 < bitlen n"
  by (simp add: bitlen.simps [of n])

lemma nat_lt_pow2_rat: "n < 2 ^ k \<Longrightarrow> (of_nat n :: rat) + 1 \<le> 2 ^ k"
proof -
  assume "n < 2 ^ k"
  then have "Suc n \<le> 2 ^ k" by simp
  then have "(of_nat (Suc n) :: rat) \<le> of_nat (2 ^ k)" by (simp only: of_nat_le_iff)
  then show ?thesis by simp
qed

lemma nat_ge_pow2_rat: "2 ^ k \<le> n \<Longrightarrow> (2::rat) ^ k \<le> of_nat n"
proof -
  assume "2 ^ k \<le> n"
  then have "(of_nat (2 ^ k) :: rat) \<le> of_nat n" by (simp only: of_nat_le_iff)
  then show ?thesis by simp
qed

lemma expo_bounds:
  assumes "0 < x"
  shows "2 powi (expo x) \<le> x" and "x < 2 powi (expo x + 1)"
proof -
  show "2 powi (expo x) \<le> x"
  proof (cases "1 \<le> x")
    case True
    define n where "n = nat \<lfloor>x\<rfloor>"
    from True have n: "0 < n" by (simp add: n_def)
    then obtain k where k: "bitlen n = Suc k" using bitlen_pos [of n] by (cases "bitlen n") auto
    from bitlen_lower [OF n] k have "2 ^ k \<le> n" by simp
    then have "(2::rat) ^ k \<le> of_nat n" by (rule nat_ge_pow2_rat)
    also have "of_nat n \<le> x" using True by (simp add: n_def)
    finally show ?thesis using True k by (simp add: expo_def n_def [symmetric])
  next
    case False
    define m where "m = nat (\<lceil>1 / x\<rceil> - 1)"
    have c: "1 / x \<le> of_int \<lceil>1 / x\<rceil>" by simp
    have "1 < 1 / x" using assms False by simp
    then have c2: "2 \<le> \<lceil>1 / x\<rceil>" by linarith
    have "int m = \<lceil>1 / x\<rceil> - 1" unfolding m_def by (rule nat_0_le) (use c2 in linarith)
    then have "(of_nat m :: rat) = of_int (\<lceil>1 / x\<rceil> - 1)" by (metis of_int_of_nat_eq)
    then have "of_int \<lceil>1 / x\<rceil> = (of_nat m :: rat) + 1" by simp
    moreover have "(of_nat m :: rat) + 1 \<le> 2 ^ bitlen m"
      by (rule nat_lt_pow2_rat [OF bitlen_upper])
    ultimately have "1 / x \<le> 2 ^ bitlen m" using c by linarith
    then have "1 \<le> x * 2 ^ bitlen m" using assms by (simp add: field_simps)
    then have "1 / 2 ^ bitlen m \<le> x" by (simp add: field_simps)
    then show ?thesis using False by (simp add: expo_def m_def [symmetric] power_int_minus field_simps)
  qed
  show "x < 2 powi (expo x + 1)"
  proof (cases "1 \<le> x")
    case True
    define n where "n = nat \<lfloor>x\<rfloor>"
    from True have n: "0 < n" by (simp add: n_def)
    have "x < of_int \<lfloor>x\<rfloor> + 1" by linarith
    also have "of_int \<lfloor>x\<rfloor> = (of_nat n :: rat)"
    proof -
      from True have "0 \<le> \<lfloor>x\<rfloor>" by linarith
      then have "int n = \<lfloor>x\<rfloor>" unfolding n_def by (rule nat_0_le)
      then show ?thesis by (metis of_int_of_nat_eq)
    qed
    also have "(of_nat n :: rat) + 1 \<le> 2 ^ bitlen n"
      by (rule nat_lt_pow2_rat [OF bitlen_upper])
    finally have "x < 2 ^ bitlen n" by simp
    then show ?thesis using True by (simp add: expo_def n_def [symmetric])
  next
    case False
    define m where "m = nat (\<lceil>1 / x\<rceil> - 1)"
    have "1 < 1 / x" using assms False by simp
    then have c2: "2 \<le> \<lceil>1 / x\<rceil>" by linarith
    then have m: "0 < m" unfolding m_def by linarith
    then obtain k where k: "bitlen m = Suc k" using bitlen_pos [of m] by (cases "bitlen m") auto
    from bitlen_lower [OF m] k have "2 ^ k \<le> m" by simp
    then have "(2::rat) ^ k \<le> of_nat m" by (rule nat_ge_pow2_rat)
    also have "(of_nat m :: rat) = of_int \<lceil>1 / x\<rceil> - 1"
    proof -
      have "int m = \<lceil>1 / x\<rceil> - 1" unfolding m_def by (rule nat_0_le) (use c2 in linarith)
      then have "(of_nat m :: rat) = of_int (\<lceil>1 / x\<rceil> - 1)" by (metis of_int_of_nat_eq)
      then show ?thesis by simp
    qed
    also have "\<dots> < 1 / x" by linarith
    finally have "2 ^ k < 1 / x" .
    then have "x * 2 ^ k < 1" using assms by (simp add: field_simps)
    then have "x < 1 / 2 ^ k" by (simp add: field_simps)
    moreover have "expo x + 1 = - int k" using False k by (simp add: expo_def m_def [symmetric])
    ultimately show ?thesis by (simp add: power_int_minus field_simps)
  qed
qed

lemma rhe_of_int: "rhe (of_int k) = k"
  by (simp add: rhe_def)

lemma rhe_lower: "\<lfloor>q\<rfloor> \<le> rhe q"
  by (simp add: rhe_def Let_def)

lemma rhe_upper: "rhe q \<le> \<lfloor>q\<rfloor> + 1"
  by (simp add: rhe_def Let_def)

lemma rhe_mono:
  assumes "a \<le> b"
  shows "rhe a \<le> rhe b"
proof (cases "\<lfloor>a\<rfloor> = \<lfloor>b\<rfloor>")
  case True
  from assms have "a - of_int \<lfloor>a\<rfloor> \<le> b - of_int \<lfloor>a\<rfloor>" by simp
  with True show ?thesis by (auto simp: rhe_def Let_def)
next
  case False
  from assms have "\<lfloor>a\<rfloor> \<le> \<lfloor>b\<rfloor>" by (rule floor_mono)
  with False have "\<lfloor>a\<rfloor> + 1 \<le> \<lfloor>b\<rfloor>" by simp
  with rhe_upper [of a] rhe_lower [of b] show ?thesis by linarith
qed

lemma expo_mono:
  assumes "0 < x" and "x \<le> y"
  shows "expo x \<le> expo y"
proof (rule ccontr)
  assume "\<not> expo x \<le> expo y"
  then have "expo y + 1 \<le> expo x" by simp
  then have "(2::rat) powi (expo y + 1) \<le> 2 powi (expo x)"
    by (intro power_int_increasing) simp_all
  moreover from assms have "0 < y" by simp
  ultimately have "y < x"
    using expo_bounds(2) [of y] expo_bounds(1) [OF assms(1)] by linarith
  with assms(2) show False by simp
qed

lemma flp_bounds:
  assumes "0 < x"
  shows "2 powi (expo x) \<le> flp x" and "flp x \<le> 2 powi (expo x + 1)"
proof -
  define u :: rat where "u = 2 powi (expo x - 52)"
  have u: "0 < u" by (simp add: u_def)
  have lo: "2 powi (expo x) = 2 ^ 52 * u"
    by (simp add: u_def power_int_diff)
  have hi: "2 powi (expo x + 1) = 2 ^ 53 * u"
    by (simp add: u_def power_int_diff power_int_add)
  from expo_bounds(1) [OF assms] lo u have "2 ^ 52 \<le> x / u"
    by (simp add: pos_le_divide_eq)
  then have "rhe (of_int (2 ^ 52)) \<le> rhe (x / u)" by (intro rhe_mono) simp
  then have a: "(2 ^ 52 :: rat) \<le> of_int (rhe (x / u))"
    unfolding rhe_of_int by (metis of_int_le_iff of_int_numeral of_int_power)
  from expo_bounds(2) [OF assms] hi u have "x / u \<le> 2 ^ 53"
    by (simp add: pos_divide_le_eq)
  then have "rhe (x / u) \<le> rhe (of_int (2 ^ 53))" by (intro rhe_mono) simp
  then have b: "of_int (rhe (x / u)) \<le> (2 ^ 53 :: rat)"
    unfolding rhe_of_int by (metis of_int_le_iff of_int_numeral of_int_power)
  have f: "flp x = of_int (rhe (x / u)) * u" by (simp add: flp_def u_def)
  from a u show "2 powi (expo x) \<le> flp x" unfolding lo f by (rule mult_right_mono [OF _ less_imp_le])
  from b u show "flp x \<le> 2 powi (expo x + 1)" unfolding hi f by (rule mult_right_mono [OF _ less_imp_le])
qed

lemma flp_pos: "0 < x \<Longrightarrow> 0 < flp x"
  using flp_bounds(1) [of x] zero_less_power_int [of "2::rat" "expo x"] by linarith

lemma flp_mono:
  assumes "0 < x" and "x \<le> y"
  shows "flp x \<le> flp y"
proof (cases "expo x = expo y")
  case True
  define u :: rat where "u = 2 powi (expo x - 52)"
  have u: "0 < u" by (simp add: u_def)
  from assms(2) u have "x / u \<le> y / u" by (simp add: divide_right_mono)
  then have "rhe (x / u) \<le> rhe (y / u)" by (rule rhe_mono)
  then have "(of_int (rhe (x / u)) :: rat) \<le> of_int (rhe (y / u))" by simp
  then have "of_int (rhe (x / u)) * u \<le> of_int (rhe (y / u)) * u"
    using u by (intro mult_right_mono) simp_all
  then show ?thesis using True by (simp add: flp_def u_def)
next
  case False
  from assms have y: "0 < y" by simp
  from False expo_mono [OF assms] have "expo x + 1 \<le> expo y" by simp
  then have "(2::rat) powi (expo x + 1) \<le> 2 powi (expo y)"
    by (intro power_int_increasing) simp_all
  with flp_bounds(2) [OF assms(1)] flp_bounds(1) [OF y] show ?thesis by linarith
qed

lemma fl_mono:
  assumes "x \<le> y"
  shows "fl x \<le> fl y"
proof -
  consider "0 < x" | "x = 0" | "x < 0" "y < 0" | "x < 0" "y = 0" | "x < 0" "0 < y"
    by linarith
  then show ?thesis
  proof cases
    case 1
    with assms flp_mono [of x y] show ?thesis by (simp add: fl_def)
  next
    case 2
    with assms flp_pos [of y] show ?thesis by (cases "y = 0") (simp_all add: fl_def)
  next
    case 3
    with assms flp_mono [of "- y" "- x"] show ?thesis by (simp add: fl_def)
  next
    case 4
    with flp_pos [of "- x"] show ?thesis by (simp add: fl_def)
  next
    case 5
    with flp_pos [of "- x"] flp_pos [of y] show ?thesis by (simp add: fl_def)
  qed
qed

lemma round2_mono: "x \<le> y \<Longrightarrow> round2 x \<le> round2 y"
  unfolding round2_def by (intro fl_mono divide_right_mono) (simp_all add: rhe_mono)

lemma fl_zero: "fl 0 = 0"
  by (simp add: fl_def)

lemma fl_nonneg: "0 \<le> x \<Longrightarrow> 0 \<le> fl x"
  using fl_mono [of 0 x] by (simp add: fl_zero)


lemma fl_one: "fl 1 = 1"
  by code_simp

lemma position_score_bounds: "0 \<le> position_score i n" "position_score i n \<le> 1"
proof -
  show "0 \<le> position_score i n" by (simp add: position_score_def rat_max_def)
  have "0 \<le> fl (of_nat i / of_nat (max n 1))" by (intro fl_nonneg) simp
  then have "fl (1 - fl (of_nat i / of_nat (max n 1))) \<le> fl 1" by (intro fl_mono) simp
  then show "position_score i n \<le> 1" by (simp add: position_score_def rat_max_def fl_one)
qed

lemma ref_bonus_upper: "ref_bonus c \<le> fl (1 / 10)"
  by (simp add: ref_bonus_def rat_min_def)


lemma ref_bonus_lower: "- fl (5 / 100) \<le> ref_bonus c"
proof -
  have d: "0 \<le> fl (5 / 100)" by (intro fl_nonneg) simp
  have "fl (- 1) \<le> fl (of_int (int c - 1))" by (intro fl_mono) simp
  moreover have "fl (- 1) = - 1" by code_simp
  ultimately have "- 1 \<le> fl (of_int (int c - 1))" by simp
  with d have "- 1 * fl (5 / 100) \<le> fl (of_int (int c - 1)) * fl (5 / 100)"
    by (intro mult_right_mono)
  then have "fl (- fl (5 / 100)) \<le> fl (fl (of_int (int c - 1)) * fl (5 / 100))"
    by (intro fl_mono) simp
  moreover have "fl (- fl (5 / 100)) = - fl (5 / 100)" by code_simp
  moreover have "- fl (5 / 100) \<le> fl (1 / 10)" by code_simp
  ultimately show ?thesis by (simp add: ref_bonus_def rat_min_def)
qed

lemma weighted_position_bounds:
  "fl (fl (55 / 100) + 0) \<le> fl (fl (55 / 100) + fl (fl (35 / 100) * position_score i n))"
  "fl (fl (55 / 100) + fl (fl (35 / 100) * position_score i n)) \<le> fl (fl (55 / 100) + fl (fl (35 / 100)))"
proof -
  have d: "0 \<le> fl (35 / 100)" by (intro fl_nonneg) simp
  with position_score_bounds(1) [of i n] have "0 \<le> fl (35 / 100) * position_score i n" by simp
  then have "0 \<le> fl (fl (35 / 100) * position_score i n)" by (rule fl_nonneg)
  then show "fl (fl (55 / 100) + 0) \<le> fl (fl (55 / 100) + fl (fl (35 / 100) * position_score i n))"
    by (intro fl_mono) simp
  from d position_score_bounds(2) [of i n]
  have "fl (35 / 100) * position_score i n \<le> fl (35 / 100) * 1" by (intro mult_left_mono)
  then have "fl (fl (35 / 100) * position_score i n) \<le> fl (fl (35 / 100))"
    by (intro fl_mono) simp
  then show "fl (fl (55 / 100) + fl (fl (35 / 100) * position_score i n)) \<le> fl (fl (55 / 100) + fl (fl (35 / 100)))"
    by (intro fl_mono) simp
qed

lemma citation_relevance_le_one: "citation_relevance i n c \<le> 1"
proof -
  from weighted_position_bounds(2) [of i n] ref_bonus_upper [of c]
  have "fl (fl (55 / 100) + fl (fl (35 / 100) * position_score i n)) + ref_bonus c
        \<le> fl (fl (55 / 100) + fl (fl (35 / 100))) + fl (1 / 10)" by linarith
  then have "citation_relevance i n c
        \<le> round2 (fl (fl (fl (55 / 100) + fl (fl (35 / 100))) + fl (1 / 10)))"
    unfolding citation_relevance_def by (intro round2_mono fl_mono)
  also have "\<dots> = 1" by code_simp
  finally show ?thesis .
qed

lemma citation_relevance_ge_half: "1 / 2 \<le> citation_relevance i n c"
proof -
  from weighted_position_bounds(1) [of i n] ref_bonus_lower [of c]
  have "fl (fl (55 / 100) + 0) + - fl (5 / 100)
        \<le> fl (fl (55 / 100) + fl (fl (35 / 100) * position_score i n)) + ref_bonus c" by linarith
  then have "round2 (fl (fl (fl (55 / 100) + 0) + - fl (5 / 100))) \<le> citation_relevance i n c"
    unfolding citation_relevance_def by (intro round2_mono fl_mono)
  moreover have "round2 (fl (fl (fl (55 / 100) + 0) + - fl (5 / 100))) = 1 / 2" by code_simp
  ultimately show ?thesis by simp
qed


section \<open>What an emitted item satisfies\<close>

lemma collect_mem:
  "collect f xs = Inr ys \<Longrightarrow> y \<in> set ys \<Longrightarrow> \<exists>x\<in>set xs. f x = Inr (Some y)"
proof (induction xs arbitrary: ys)
  case Nil
  then show ?case by simp
next
  case (Cons x xs)
  from Cons.prems(1) obtain r rs where r: "f x = Inr r" and rs: "collect f xs = Inr rs"
    and ys: "ys = (case r of None \<Rightarrow> rs | Some v \<Rightarrow> v # rs)"
    by (auto split: sum.splits)
  show ?case
  proof (cases "y \<in> set rs")
    case True
    with Cons.IH [OF rs] show ?thesis by auto
  next
    case False
    with ys Cons.prems(2) have "r = Some y" by (cases r) auto
    with r show ?thesis by simp
  qed
qed

lemma enumerate_mem: "(i, x) \<in> set (enumerate 0 xs) \<Longrightarrow> i < length xs \<and> xs ! i = x"
  by (simp add: in_set_enumerate_eq)

lemma clamp_in_unit_interval: "in_unit_interval (py_min (Fin 1) (py_max (Fin 0) f))"
  by (cases f) (simp_all add: py_min_def py_max_def in_unit_interval_def)

lemma default_relevance_in_unit_interval: "in_unit_interval (Fin (fl (6 / 10)))"
proof -
  have "0 \<le> fl (6 / 10) \<and> fl (6 / 10) \<le> 1" by code_simp
  then show ?thesis by (simp add: in_unit_interval_def)
qed

lemma score_relevance_in_unit_interval:
  "score_relevance e result = Inr f \<Longrightarrow> in_unit_interval f"
  using clamp_in_unit_interval default_relevance_in_unit_interval
  by (auto simp: score_relevance_def split: sum.splits if_splits)

lemma site_domain_allowed:
  "site_domain e (JStr u) = Domain d \<Longrightarrow> urlparse e u = Inr p \<Longrightarrow>
   py_lower (netloc p) \<notin> EXCLUDED_DOMAINS"
  by (auto simp: site_domain_def urlparse_py_def Let_def split: if_splits)

lemma extract_title_length:
  "extract_title_for_citation content k = Inr (Some t) \<Longrightarrow> 3 < length t"
  by (auto simp: extract_title_for_citation_def Let_def split: if_splits json.splits option.splits)

lemma citation_item_emitted:
  assumes "citation_item e content n cc (i, url) = Inr (Some it)"
  shows "w_url it = url" and "\<exists>u. url = JStr u \<and> u \<noteq> []"
    and "site_domain e url = Domain (w_source_domain it)"
    and "w_relevance it = Fin (citation_relevance i n (ref_count_of cc (i + 1)))"
    and "length (w_title it) \<le> 200" and "length (w_snippet it) \<le> 500"
    and "w_date it = JNull"
    and "w_title it \<noteq> [] \<or> w_source_domain it = []"
proof -
  from assms obtain u where u: "url = JStr u" "u \<noteq> []"
    by (auto simp: citation_item_def split: json.splits if_splits)
  from assms u obtain domain where d: "site_domain e url = Domain domain"
    by (auto simp: citation_item_def split: domain_result.splits)
  from assms u d obtain t where t: "extract_title_for_citation content (i + 1) = Inr t"
    by (auto simp: citation_item_def split: sum.splits)
  from assms u d t obtain sn where sn: "extract_snippet_for_citation content (i + 1) = Inr sn"
    by (auto simp: citation_item_def split: sum.splits)
  from assms u d t sn have it: "it =
      \<lparr>w_id = CHR ''W'' # dec_of_nat (i + 1),
       w_title = take 200 (case t of Some x \<Rightarrow> x | None \<Rightarrow> domain),
       w_url = url, w_source_domain = domain,
       w_snippet = (case sn of Some x \<Rightarrow> take 500 x | None \<Rightarrow> []),
       w_date = JNull, w_date_confidence = ''low'',
       w_relevance = Fin (citation_relevance i n (ref_count_of cc (i + 1))),
       w_why_relevant = []\<rparr>"
    by (simp add: citation_item_def)
  show "w_url it = url" by (simp add: it)
  show "\<exists>u. url = JStr u \<and> u \<noteq> []" using u by simp
  show "site_domain e url = Domain (w_source_domain it)" using d by (simp add: it)
  show "w_relevance it = Fin (citation_relevance i n (ref_count_of cc (i + 1)))" by (simp add: it)
  show "length (w_title it) \<le> 200" by (simp add: it)
  show "length (w_snippet it) \<le> 500" by (cases sn) (simp_all add: it)
  show "w_date it = JNull" by (simp add: it)
  show "w_title it \<noteq> [] \<or> w_source_domain it = []"
  proof (cases t)
    case None
    then show ?thesis by (simp add: it)
  next
    case (Some x)
    with t have "3 < length x" by (simp add: extract_title_length)
    then have "take 200 x \<noteq> []" by auto
    with Some show ?thesis by (simp add: it)
  qed
qed

lemma result_item_emitted:
  assumes "result_item e (i, r) = Inr (Some it)"
  shows "truthy (w_url it)" and "\<exists>d. site_domain e (w_url it) = Domain d"
    and "in_unit_interval (w_relevance it)"
    and "length (w_title it) \<le> 200" and "length (w_snippet it) \<le> 500"
    and "w_title it \<noteq> [] \<or> w_snippet it \<noteq> []"
proof -
  from assms obtain result where r: "r = JDict result"
    by (auto simp: result_item_def split: json.splits)
  define url where "url = dict_get result ''url'' (JStr [])"
  define title where "title = text_field e result ''title''"
  define snippet where "snippet = text_field e result ''content''"
  from assms r have tr: "truthy url"
    by (auto simp: result_item_def Let_def url_def split: if_splits)
  from assms r tr obtain domain where d: "site_domain e url = Domain domain"
    by (auto simp: result_item_def Let_def url_def split: domain_result.splits)
  from assms r tr d have ne: "\<not> (title = [] \<and> snippet = [])"
    by (auto simp: result_item_def Let_def url_def title_def snippet_def split: if_splits)
  from assms r tr d ne obtain relevance where rel: "score_relevance e result = Inr relevance"
    by (auto simp: result_item_def Let_def url_def title_def snippet_def split: sum.splits)
  from assms r tr d ne rel obtain date where dt: "trim_date result = Inr date"
    by (auto simp: result_item_def Let_def url_def title_def snippet_def split: sum.splits)
  from assms r tr d ne rel dt have it: "it =
      \<lparr>w_id = CHR ''W'' # dec_of_nat (i + 1), w_title = take 200 title, w_url = url,
       w_source_domain = domain, w_snippet = take 500 snippet, w_date = date,
       w_date_confidence = (if truthy date then ''med'' else ''low''),
       w_relevance = relevance, w_why_relevant = []\<rparr>"
    by (auto simp: result_item_def Let_def url_def title_def snippet_def)
  show "truthy (w_url it)" using tr by (simp add: it)
  show "\<exists>d. site_domain e (w_url it) = Domain d" using d by (simp add: it)
  show "in_unit_interval (w_relevance it)"
    using score_relevance_in_unit_interval [OF rel] by (simp add: it)
  show "length (w_title it) \<le> 200" by (simp add: it)
  show "length (w_snippet it) \<le> 500" by (simp add: it)
  show "w_title it \<noteq> [] \<or> w_snippet it \<noteq> []" using ne by (auto simp: it)
qed

text \<open>\<^verbatim>\<open>float\<close> of an integer too large for a float raises OverflowError, which is not caught.\<close>

lemma huge_score_raises: "normalize_results_tavily env0 tavily_huge_score = Inl OverflowError"
  by code_simp

section \<open>The Reddit normalizer and the enrichment\<close>

lemma trim_date_shape:
  assumes "trim_date result = Inr date" and "truthy date"
  shows "(\<exists>s. date = JStr s \<and> length s \<le> 10) \<or> (\<exists>l. date = JList l) \<or> (\<exists>d. date = JDict d)"
proof -
  define v where "v = dict_get result ''published_date'' JNull"
  show ?thesis
  proof (cases v)
    case (JStr s)
    with assms show ?thesis
      by (auto simp: trim_date_def v_def [symmetric] Let_def split: if_splits)
  next
    case (JList l)
    with assms show ?thesis
      by (auto simp: trim_date_def v_def [symmetric] Let_def split: if_splits)
  next
    case (JDict d)
    with assms show ?thesis
      by (auto simp: trim_date_def v_def [symmetric] Let_def split: if_splits)
  qed (use assms in \<open>auto simp: trim_date_def v_def [symmetric] Let_def split: if_splits\<close>)
qed

lemma iso_match_first_digit: "iso_match s \<Longrightarrow> s \<noteq> [] \<and> is_digit (hd s)"
  by (cases s) (auto simp: iso_match_def iso_shape_def split: if_splits)

lemma reddit_date_shape:
  assumes "reddit_date e result = Inr date" and "truthy date"
  shows "iso_date date"
proof -
  from assms obtain d0 where d0: "trim_date result = Inr d0"
    by (auto simp: reddit_date_def split: sum.splits)
  with assms have eq: "date = d0" and m: "iso_match (py_str e date)"
    by (auto simp: reddit_date_def split: if_splits)
  from trim_date_shape [OF d0] assms(2) eq
  consider s where "date = JStr s" "length s \<le> 10" | l where "date = JList l" | d where "date = JDict d"
    by auto
  then show ?thesis
  proof cases
    case 1
    with m show ?thesis by (auto simp: py_str_def iso_match_def iso_date_def split: if_splits)
  next
    case 2
    with iso_match_first_digit [OF m] show ?thesis by (simp add: py_str_def is_digit_def)
  next
    case 3
    with iso_match_first_digit [OF m] show ?thesis by (simp add: py_str_def is_digit_def)
  qed
qed

lemma reddit_result_item_emitted:
  assumes "reddit_result_item e (i, r) = Inr (Some it)"
  shows "truthy (r_url it)" and "py_contains ''reddit.com'' (r_url it) = Inr True"
    and "r_title it \<noteq> []" and "length (r_title it) \<le> 200"
    and "in_unit_interval (r_relevance it)"
    and "truthy (r_date it) \<longrightarrow> iso_date (r_date it)"
proof -
  from assms obtain result where r: "r = JDict result"
    by (auto simp: reddit_result_item_def split: json.splits)
  define url where "url = dict_get result ''url'' (JStr [])"
  define title where "title = (if text_field e result ''title'' = []
      then take 100 (text_field e result ''content'') else text_field e result ''title'')"
  from assms r have tr: "truthy url"
    by (auto simp: reddit_result_item_def Let_def url_def split: if_splits)
  from assms r tr have found: "py_contains ''reddit.com'' url = Inr True"
    by (auto simp: reddit_result_item_def Let_def url_def split: sum.splits if_splits)
  from assms r tr found have ne: "title \<noteq> []"
    by (auto simp: reddit_result_item_def Let_def url_def title_def split: if_splits)
  from assms r tr found ne obtain date where dt: "reddit_date e result = Inr date"
    by (auto simp: reddit_result_item_def Let_def url_def title_def split: sum.splits if_splits)
  from assms r tr found ne dt obtain relevance where rel: "score_relevance e result = Inr relevance"
    by (auto simp: reddit_result_item_def Let_def url_def title_def split: sum.splits if_splits)
  from assms r tr found ne dt rel have it: "it =
      \<lparr>r_id = CHR ''R'' # dec_of_nat (i + 1), r_title = take 200 title, r_url = url,
       r_subreddit = subreddit_of e url, r_date = date, r_why_relevant = [],
       r_relevance = relevance\<rparr>"
    by (auto simp: reddit_result_item_def Let_def url_def title_def split: if_splits)
  show "truthy (r_url it)" using tr by (simp add: it)
  show "py_contains ''reddit.com'' (r_url it) = Inr True" using found by (simp add: it)
  show "r_title it \<noteq> []" using ne by (simp add: it)
  show "length (r_title it) \<le> 200" by (simp add: it)
  show "in_unit_interval (r_relevance it)"
    using score_relevance_in_unit_interval [OF rel] by (simp add: it)
  show "truthy (r_date it) \<longrightarrow> iso_date (r_date it)"
    using reddit_date_shape [OF dt] by (simp add: it)
qed

lemma same_but_date_refl: "same_but_date a a"
  by (simp add: same_but_date_def)

lemma same_but_date_trans: "same_but_date a b \<Longrightarrow> same_but_date b c \<Longrightarrow> same_but_date a c"
  by (simp add: same_but_date_def)

lemma patch_date_length: "length (patch_date e its p) = length its"
  by (simp add: patch_date_def Let_def)

lemma patch_date_other: "i \<noteq> fst p \<Longrightarrow> patch_date e its p ! i = its ! i"
  by (simp add: patch_date_def Let_def)

lemma patch_date_frame: "i < length its \<Longrightarrow> same_but_date (its ! i) (patch_date e its p ! i)"
  by (cases "i = fst p") (simp_all add: patch_date_def Let_def same_but_date_def)

lemma patch_date_source:
  "i < length its \<Longrightarrow>
   patch_date e its p ! i = its ! i
   \<or> (\<exists>idx u. r_date (patch_date e its p ! i) = fetch_date_from_reddit e idx u
        \<and> truthy (fetch_date_from_reddit e idx u))"
  by (cases "i = fst p") (auto simp: patch_date_def Let_def)

lemma foldl_patch_length: "length (foldl (patch_date e) its ps) = length its"
  by (induction ps arbitrary: its) (simp_all add: patch_date_length)

lemma foldl_patch_other:
  "i \<notin> fst ` set ps \<Longrightarrow> foldl (patch_date e) its ps ! i = its ! i"
  by (induction ps arbitrary: its) (simp_all add: patch_date_other)

lemma foldl_patch_frame:
  "i < length its \<Longrightarrow> same_but_date (its ! i) (foldl (patch_date e) its ps ! i)"
proof (induction ps arbitrary: its)
  case Nil
  then show ?case by (simp add: same_but_date_refl)
next
  case (Cons p ps)
  from Cons.prems have "i < length (patch_date e its p)" by (simp add: patch_date_length)
  from Cons.IH [OF this] patch_date_frame [OF Cons.prems, of e p]
  show ?case by (auto intro: same_but_date_trans)
qed

lemma foldl_patch_source:
  "i < length its \<Longrightarrow>
   r_date (foldl (patch_date e) its ps ! i) = r_date (its ! i)
   \<or> (\<exists>idx u. r_date (foldl (patch_date e) its ps ! i) = fetch_date_from_reddit e idx u
        \<and> truthy (fetch_date_from_reddit e idx u))"
proof (induction ps arbitrary: its)
  case Nil
  then show ?case by simp
next
  case (Cons p ps)
  from Cons.prems have "i < length (patch_date e its p)" by (simp add: patch_date_length)
  from Cons.IH [OF this] patch_date_source [OF Cons.prems, of e p]
  show ?case by auto
qed

lemma needing_dates_falsy:
  "p \<in> set (items_needing_dates items) \<Longrightarrow>
   fst p < length items \<and> \<not> truthy (r_date (items ! fst p))"
  by (cases p) (auto simp: items_needing_dates_def in_set_enumerate_eq)

lemma needing_dates_empty:
  "(\<forall>it\<in>set items. truthy (r_date it)) \<Longrightarrow> items_needing_dates items = []"
  by (auto simp: items_needing_dates_def filter_empty_conv in_set_enumerate_eq)

lemma enrich_dates_length: "length (fst (enrich_dates e items)) = length items"
  by (simp add: enrich_dates_def Let_def foldl_patch_length)

lemma enrich_dates_same_but_date:
  "i < length items \<Longrightarrow> same_but_date (items ! i) (fst (enrich_dates e items) ! i)"
  by (simp add: enrich_dates_def Let_def foldl_patch_frame same_but_date_refl)

lemma enrich_dates_dated_unchanged:
  assumes "i < length items" and "truthy (r_date (items ! i))"
  shows "fst (enrich_dates e items) ! i = items ! i"
proof -
  from assms needing_dates_falsy [of _ items]
  have "i \<notin> fst ` set (items_needing_dates items)" by auto
  then show ?thesis by (simp add: enrich_dates_def Let_def foldl_patch_other)
qed

lemma enrich_dates_source:
  assumes "i < length items"
  shows "r_date (fst (enrich_dates e items) ! i) = r_date (items ! i)
   \<or> (\<exists>idx u. r_date (fst (enrich_dates e items) ! i) = fetch_date_from_reddit e idx u
        \<and> truthy (fetch_date_from_reddit e idx u))"
  using foldl_patch_source [OF assms, of e "items_needing_dates items"]
  by (simp add: enrich_dates_def Let_def)

lemma fetch_date_source:
  "truthy (fetch_date_from_reddit e idx u) \<Longrightarrow>
   \<exists>v. timestamp_to_date e v = Inr (fetch_date_from_reddit e idx u)"
  by (auto simp: fetch_date_from_reddit_def split: option.splits if_splits sum.splits json.splits list.splits)

lemma enrich_dates_origin:
  assumes "it' \<in> set (fst (enrich_dates e items))"
  shows "\<exists>it\<in>set items. same_but_date it it'
           \<and> (r_date it' = r_date it
              \<or> (\<exists>v. timestamp_to_date e v = Inr (r_date it') \<and> truthy (r_date it')))"
proof -
  from assms obtain i where i: "i < length items" and it': "it' = fst (enrich_dates e items) ! i"
    by (auto simp: in_set_conv_nth enrich_dates_length)
  from i have "items ! i \<in> set items" by simp
  moreover have "same_but_date (items ! i) it'"
    unfolding it' by (rule enrich_dates_same_but_date [OF i])
  moreover have "r_date it' = r_date (items ! i)
      \<or> (\<exists>v. timestamp_to_date e v = Inr (r_date it') \<and> truthy (r_date it'))"
    using enrich_dates_source [OF i, of e] fetch_date_source [of e] unfolding it' by metis
  ultimately show ?thesis by blast
qed

lemma parse_reddit_response_origin:
  assumes "parse_reddit_response e response = Inr (items, urls)" and "it' \<in> set items"
  shows "\<exists>i r it. reddit_result_item e (i, r) = Inr (Some it) \<and> same_but_date it it'
           \<and> (r_date it' = r_date it
              \<or> (\<exists>v. timestamp_to_date e v = Inr (r_date it') \<and> truthy (r_date it')))"
proof -
  from assms obtain results where res: "dict_get response ''results'' (JList []) = JList results"
    by (auto simp: parse_reddit_response_def split: json.splits)
  with assms(1) obtain built where built: "collect (reddit_result_item e) (enumerate 0 results) = Inr built"
    and out: "(items, urls) = (if built = [] then (built, []) else enrich_dates e built)"
    by (auto simp: parse_reddit_response_def split: sum.splits)
  have "\<exists>it\<in>set built. same_but_date it it'
           \<and> (r_date it' = r_date it
              \<or> (\<exists>v. timestamp_to_date e v = Inr (r_date it') \<and> truthy (r_date it')))"
  proof (cases "built = []")
    case True
    with out assms(2) show ?thesis by simp
  next
    case False
    with out have "items = fst (enrich_dates e built)" by (metis fst_conv)
    with assms(2) enrich_dates_origin [of it' e built] show ?thesis by simp
  qed
  then obtain it where it: "it \<in> set built" "same_but_date it it'"
    "r_date it' = r_date it \<or> (\<exists>v. timestamp_to_date e v = Inr (r_date it') \<and> truthy (r_date it'))"
    by blast
  from collect_mem [OF built it(1)] obtain x where "reddit_result_item e x = Inr (Some it)" by blast
  then have "reddit_result_item e (fst x, snd x) = Inr (Some it)" by simp
  with it show ?thesis by blast
qed

text \<open>The pool is created with at least one worker, at most five, and at most one for each task.\<close>

lemma max_workers_bounds:
  assumes "items_needing_dates items \<noteq> []"
  shows "1 \<le> max_workers items" and "max_workers items \<le> 5"
    and "max_workers items \<le> length (items_needing_dates items)"
proof -
  from assms have "1 \<le> length (items_needing_dates items)"
    by (cases "items_needing_dates items") simp_all
  then show "1 \<le> max_workers items" by (simp add: max_workers_def)
  show "max_workers items \<le> 5" by (simp add: max_workers_def)
  show "max_workers items \<le> length (items_needing_dates items)" by (simp add: max_workers_def)
qed

section \<open>Where an emitted item comes from\<close>

lemma perplexity_item_origin:
  assumes "normalize_results_perplexity e response = Inr items" and "it \<in> set items"
  shows "\<exists>cc i. i < length (citations_of response)
           \<and> count_citation_references (get_content response) (length (citations_of response)) = Inr cc
           \<and> citation_item e (get_content response) (length (citations_of response)) cc
                (i, citations_of response ! i) = Inr (Some it)"
proof -
  from assms obtain cs where cs: "dict_get response ''citations'' (JList []) = JList cs"
    by (auto simp: normalize_results_perplexity_def Let_def split: json.splits)
  then have co: "citations_of response = cs" by (simp add: citations_of_def)
  from assms cs have ne: "cs \<noteq> []"
    by (auto simp: normalize_results_perplexity_def Let_def)
  from assms(1) cs ne obtain cc
    where cc: "count_citation_references (get_content response) (length cs) = Inr cc"
      and col: "collect (citation_item e (get_content response) (length cs) cc) (enumerate 0 cs)
                = Inr items"
    by (auto simp: normalize_results_perplexity_def Let_def split: sum.splits)
  from collect_mem [OF col assms(2)] obtain x where x: "x \<in> set (enumerate 0 cs)"
    and item: "citation_item e (get_content response) (length cs) cc x = Inr (Some it)" by blast
  obtain i u where xi: "x = (i, u)" by (cases x)
  with x have "i < length cs" "cs ! i = u" by (simp_all add: in_set_enumerate_eq)
  with item xi cc co show ?thesis by auto
qed

lemma tavily_item_origin:
  assumes "normalize_results_tavily e response = Inr items" and "it \<in> set items"
  shows "\<exists>i r. result_item e (i, r) = Inr (Some it)"
proof -
  from assms obtain results where "dict_get response ''results'' (JList []) = JList results"
    by (auto simp: normalize_results_tavily_def split: json.splits)
  with assms(1) have "collect (result_item e) (enumerate 0 results) = Inr items"
    by (simp add: normalize_results_tavily_def)
  from collect_mem [OF this assms(2)] obtain x where "result_item e x = Inr (Some it)" by blast
  then have "result_item e (fst x, snd x) = Inr (Some it)" by simp
  then show ?thesis by blast
qed


lemma in_unit_interval_Fin: "0 \<le> r \<Longrightarrow> r \<le> 1 \<Longrightarrow> in_unit_interval (Fin r)"
  by (simp add: in_unit_interval_def)

lemma citation_relevance_in_unit_interval: "in_unit_interval (Fin (citation_relevance i n c))"
  using citation_relevance_le_one [of i n c] citation_relevance_ge_half [of i n c]
  by (intro in_unit_interval_Fin) simp_all

lemma needing_dates_urls:
  "map (\<lambda>p. r_url (snd p)) (filter (\<lambda>p. \<not> truthy (r_date (snd p))) (enumerate n items))
   = map r_url (filter (\<lambda>it. \<not> truthy (r_date it)) items)"
  by (induction items arbitrary: n) simp_all

lemma enrich_dates_tasks:
  "snd (enrich_dates e items) = map r_url (filter (\<lambda>it. \<not> truthy (r_date it)) items)"
proof (cases "items_needing_dates items = []")
  case True
  then have "map (\<lambda>p. r_url (snd p)) (items_needing_dates items) = []" by simp
  then have "map r_url (filter (\<lambda>it. \<not> truthy (r_date it)) items) = []"
    by (simp only: items_needing_dates_def needing_dates_urls)
  with True show ?thesis by (simp add: enrich_dates_def)
next
  case False
  then show ?thesis
    by (simp add: enrich_dates_def Let_def) (simp add: items_needing_dates_def needing_dates_urls)
qed


lemma section8_relevance:
  "normalize_results_perplexity env0 sonar_response = Inr sonar_items
   \<and> map w_relevance sonar_items = [Fin (fl (95 / 100)), Fin (fl (73 / 100))]"
proof -
  have "normalize_results_perplexity env0 sonar_response = Inr sonar_items" by code_simp
  then show ?thesis by (simp add: sonar_items_def)
qed

text \<open>A url of an emitted Reddit item that is a string holds \<^verbatim>\<open>reddit.com\<close>.\<close>

lemma reddit_string_url_contains:
  assumes "parse_reddit_response e response = Inr (items, urls)" and "it' \<in> set items"
    and "r_url it' = JStr u"
  shows "u \<noteq> [] \<and> contains ''reddit.com'' u"
proof -
  from parse_reddit_response_origin [OF assms(1,2)] obtain i r it
    where c: "reddit_result_item e (i, r) = Inr (Some it)" and s: "same_but_date it it'" by blast
  from s assms(3) have "r_url it = JStr u" by (simp add: same_but_date_def)
  with reddit_result_item_emitted(1,2) [OF c] show ?thesis by simp
qed






section \<open>The claims\<close>

text \<open>
  C1. The specification says that a response of malformed shape (missing keys,
  wrong types, values that are not strings) never makes a normalizer raise.
  Each of the three raises TypeError on such a response: \<^verbatim>\<open>len(date)\<close> on a
  \<^verbatim>\<open>published_date\<close> that is a number in the two Tavily normalizers, and
  \<^verbatim>\<open>re.findall\<close> on a message content that is a number in the citation
  normalizer.
\<close>

theorem malformed_shape_raises:
  "normalize_results_tavily env0 tavily_numeric_date = Inl TypeError
   \<and> parse_reddit_response env0 reddit_numeric_date = Inl TypeError
   \<and> normalize_results_perplexity env0 sonar_numeric_content = Inl TypeError"
  by code_simp

text \<open>
  C2. Every item a normalizer emits has a relevance between 0.0 and 1.0 and a
  title of at most 200 characters, and the items of the two web normalizers have
  a snippet of at most 500 characters.
\<close>

theorem emitted_items_within_bounds:
  "(normalize_results_perplexity e response = Inr items \<longrightarrow>
      (\<forall>it\<in>set items. in_unit_interval (w_relevance it)
          \<and> length (w_title it) \<le> 200 \<and> length (w_snippet it) \<le> 500))
   \<and> (normalize_results_tavily e response = Inr items \<longrightarrow>
      (\<forall>it\<in>set items. in_unit_interval (w_relevance it)
          \<and> length (w_title it) \<le> 200 \<and> length (w_snippet it) \<le> 500))
   \<and> (parse_reddit_response e response = Inr (ritems, urls) \<longrightarrow>
      (\<forall>it\<in>set ritems. in_unit_interval (r_relevance it) \<and> length (r_title it) \<le> 200))"
proof (intro conjI impI ballI)
  fix it
  assume n: "normalize_results_perplexity e response = Inr items" and it: "it \<in> set items"
  from perplexity_item_origin [OF n it] obtain cc i
    where c: "citation_item e (get_content response) (length (citations_of response)) cc
                (i, citations_of response ! i) = Inr (Some it)" by blast
  show "in_unit_interval (w_relevance it)"
    using citation_item_emitted(4) [OF c] by (simp add: citation_relevance_in_unit_interval)
  show "length (w_title it) \<le> 200" by (rule citation_item_emitted(5) [OF c])
  show "length (w_snippet it) \<le> 500" by (rule citation_item_emitted(6) [OF c])
next
  fix it
  assume n: "normalize_results_tavily e response = Inr items" and it: "it \<in> set items"
  from tavily_item_origin [OF n it] obtain i r where c: "result_item e (i, r) = Inr (Some it)"
    by blast
  show "in_unit_interval (w_relevance it)" by (rule result_item_emitted(3) [OF c])
  show "length (w_title it) \<le> 200" by (rule result_item_emitted(4) [OF c])
  show "length (w_snippet it) \<le> 500" by (rule result_item_emitted(5) [OF c])
next
  fix it'
  assume n: "parse_reddit_response e response = Inr (ritems, urls)" and it: "it' \<in> set ritems"
  from parse_reddit_response_origin [OF n it] obtain i r it
    where c: "reddit_result_item e (i, r) = Inr (Some it)" and s: "same_but_date it it'" by blast
  show "in_unit_interval (r_relevance it')"
    using reddit_result_item_emitted(5) [OF c] s by (simp add: same_but_date_def)
  show "length (r_title it') \<le> 200"
    using reddit_result_item_emitted(4) [OF c] s by (simp add: same_but_date_def)
qed

theorem emitted_items_within_bounds_witness:
  "normalize_results_perplexity env0 sonar_response = Inr sonar_items
   \<and> in_unit_interval (w_relevance (sonar_items ! 1))
   \<and> length (w_title (sonar_items ! 1)) \<le> 200 \<and> length (w_snippet (sonar_items ! 1)) \<le> 500
   \<and> normalize_results_tavily env0 tavily_plain = Inr [tavily_plain_item]
   \<and> in_unit_interval (w_relevance tavily_plain_item)
   \<and> length (w_title tavily_plain_item) \<le> 200 \<and> length (w_snippet tavily_plain_item) \<le> 500
   \<and> parse_reddit_response env0 reddit_dated = Inr ([reddit_dated_item], [])
   \<and> in_unit_interval (r_relevance reddit_dated_item)
   \<and> length (r_title reddit_dated_item) \<le> 200"
proof -
  have a: "normalize_results_perplexity env0 sonar_response = Inr sonar_items" by code_simp
  have b: "normalize_results_tavily env0 tavily_plain = Inr [tavily_plain_item]" by code_simp
  have c: "parse_reddit_response env0 reddit_dated = Inr ([reddit_dated_item], [])" by code_simp
  have m: "sonar_items ! 1 \<in> set sonar_items" by (simp add: sonar_items_def)
  from emitted_items_within_bounds [of env0 sonar_response sonar_items] a m
  have "in_unit_interval (w_relevance (sonar_items ! 1))
     \<and> length (w_title (sonar_items ! 1)) \<le> 200 \<and> length (w_snippet (sonar_items ! 1)) \<le> 500"
    by blast
  moreover from emitted_items_within_bounds [of env0 tavily_plain "[tavily_plain_item]"] b
  have "in_unit_interval (w_relevance tavily_plain_item)
     \<and> length (w_title tavily_plain_item) \<le> 200 \<and> length (w_snippet tavily_plain_item) \<le> 500"
    by simp
  moreover from emitted_items_within_bounds [of env0 reddit_dated _ "[reddit_dated_item]" "[]"] c
  have "in_unit_interval (r_relevance reddit_dated_item) \<and> length (r_title reddit_dated_item) \<le> 200"
    by simp
  ultimately show ?thesis using a b c by blast
qed

text \<open>
  C3. Whatever the fetches answer, \<^verbatim>\<open>_enrich_dates\<close> returns a list of the same
  length and order in which every item keeps all its fields but the date, and an
  item that had a date keeps that too. One task is submitted for each item
  without a date; when no item lacks a date the list is returned as it is and no
  task is submitted. The function has no raising branch: every raise of a fetch
  is caught inside \<^verbatim>\<open>_fetch_date_from_reddit\<close>.
\<close>

theorem enrich_dates_frame:
  "length (fst (enrich_dates e items)) = length items
   \<and> (\<forall>i<length items.
         same_but_date (items ! i) (fst (enrich_dates e items) ! i)
         \<and> (truthy (r_date (items ! i)) \<longrightarrow> fst (enrich_dates e items) ! i = items ! i))
   \<and> snd (enrich_dates e items) = map r_url (filter (\<lambda>it. \<not> truthy (r_date it)) items)
   \<and> ((\<forall>it\<in>set items. truthy (r_date it)) \<longrightarrow> enrich_dates e items = (items, []))"
proof (intro conjI allI impI)
  show "length (fst (enrich_dates e items)) = length items" by (rule enrich_dates_length)
  show "snd (enrich_dates e items) = map r_url (filter (\<lambda>it. \<not> truthy (r_date it)) items)"
    by (rule enrich_dates_tasks)
next
  fix i
  assume "i < length items"
  then show "same_but_date (items ! i) (fst (enrich_dates e items) ! i)"
    by (rule enrich_dates_same_but_date)
next
  fix i
  assume "i < length items" and "truthy (r_date (items ! i))"
  then show "fst (enrich_dates e items) ! i = items ! i" by (rule enrich_dates_dated_unchanged)
next
  assume "\<forall>it\<in>set items. truthy (r_date it)"
  then have "items_needing_dates items = []" by (rule needing_dates_empty)
  then show "enrich_dates e items = (items, [])" by (simp add: enrich_dates_def)
qed

theorem enrich_dates_frame_witness:
  "enrich_dates env0 [post_hello, post_bye, post_dated]
     = ([post_hello\<lparr>r_date := JStr ''2024-01-15''\<rparr>, post_bye, post_dated],
        [r_url post_hello, r_url post_bye])
   \<and> same_but_date post_hello (fst (enrich_dates env0 [post_hello, post_bye, post_dated]) ! 0)
   \<and> truthy (r_date post_dated)
   \<and> fst (enrich_dates env0 [post_hello, post_bye, post_dated]) ! 2 = post_dated
   \<and> enrich_dates env0 [post_dated] = ([post_dated], [])"
proof -
  have run: "enrich_dates env0 [post_hello, post_bye, post_dated]
     = ([post_hello\<lparr>r_date := JStr ''2024-01-15''\<rparr>, post_bye, post_dated],
        [r_url post_hello, r_url post_bye])" by code_simp
  have dated: "truthy (r_date post_dated)" by (simp add: post_dated_def)
  note frame = enrich_dates_frame [of env0 "[post_hello, post_bye, post_dated]",
      THEN conjunct2, THEN conjunct1, rule_format]
  from frame [of 0]
  have "same_but_date post_hello (fst (enrich_dates env0 [post_hello, post_bye, post_dated]) ! 0)"
    by simp
  moreover from frame [of 2] dated
  have "fst (enrich_dates env0 [post_hello, post_bye, post_dated]) ! 2 = post_dated" by simp
  moreover from enrich_dates_frame [of env0 "[post_dated]"] dated
  have "enrich_dates env0 [post_dated] = ([post_dated], [])" by simp
  ultimately show ?thesis using run dated by simp
qed

text \<open>
  C4. The specification gives the relevance of a citation as
  \<^verbatim>\<open>round(0.55 + 0.35*position_score + ref_bonus, 2)\<close> with a reference count that
  is 1 when the text does not refer to the citation. On a text that is not empty
  and never refers to the single citation, the code counts 0 references, the
  bonus is negative, and the relevance is 0.85 where the formula gives 0.90.
\<close>

theorem unreferenced_citation_relevance:
  "normalize_results_perplexity env0 sonar_unreferenced = Inr [sonar_unreferenced_item]
   \<and> times_referenced sonar_unreferenced 1 = 0
   \<and> w_relevance sonar_unreferenced_item = Fin (fl (85 / 100))
   \<and> fl (85 / 100) < fl (90 / 100)"
proof -
  have "normalize_results_perplexity env0 sonar_unreferenced = Inr [sonar_unreferenced_item]"
    by code_simp
  moreover have "times_referenced sonar_unreferenced 1 = 0" by code_simp
  moreover have "fl (85 / 100) < fl (90 / 100)" by code_simp
  ultimately show ?thesis by (simp add: sonar_unreferenced_item_def)
qed

text \<open>
  C5. The specification says that an item whose host is on the denylist is
  absent from the output of every normalizer. The Reddit normalizer emits an
  item whose host is \<^verbatim>\<open>old.reddit.com\<close>: its filter (line 192) skips a result
  whose url does not hold \<^verbatim>\<open>reddit.com\<close>, and it consults no denylist.
\<close>

theorem reddit_normalizer_keeps_denylisted:
  "parse_reddit_response env0 reddit_dated = Inr ([reddit_dated_item], [])
   \<and> r_url reddit_dated_item = JStr ''https://old.reddit.com/r/ml/comments/ghi/x''
   \<and> urlparse env0 ''https://old.reddit.com/r/ml/comments/ghi/x''
       = Inr \<lparr>netloc = ''old.reddit.com'', path = ''/r/ml/comments/ghi/x''\<rparr>
   \<and> py_lower ''old.reddit.com'' \<in> EXCLUDED_DOMAINS"
proof -
  have "parse_reddit_response env0 reddit_dated = Inr ([reddit_dated_item], [])" by code_simp
  moreover have "urlparse env0 ''https://old.reddit.com/r/ml/comments/ghi/x''
       = Inr \<lparr>netloc = ''old.reddit.com'', path = ''/r/ml/comments/ghi/x''\<rparr>" by code_simp
  moreover have "py_lower ''old.reddit.com'' \<in> EXCLUDED_DOMAINS" by code_simp
  ultimately show ?thesis by (simp add: reddit_dated_item_def)
qed

text \<open>
  C5, as the code has it. In the output of the two web normalizers, no item has
  a url whose lowercased netloc is in \<^verbatim>\<open>EXCLUDED_DOMAINS\<close>.
\<close>

theorem web_normalizers_drop_denylisted:
  assumes "normalize_results_perplexity e response = Inr items
           \<or> normalize_results_tavily e response = Inr items"
    and "it \<in> set items" and "w_url it = JStr u" and "urlparse e u = Inr p"
  shows "py_lower (netloc p) \<notin> EXCLUDED_DOMAINS"
proof -
  from assms(1) have "\<exists>d. site_domain e (w_url it) = Domain d"
  proof
    assume n: "normalize_results_perplexity e response = Inr items"
    from perplexity_item_origin [OF n assms(2)] obtain cc i
      where "citation_item e (get_content response) (length (citations_of response)) cc
                (i, citations_of response ! i) = Inr (Some it)" by blast
    from citation_item_emitted(1,3) [OF this] show ?thesis by auto
  next
    assume n: "normalize_results_tavily e response = Inr items"
    from tavily_item_origin [OF n assms(2)] obtain i r
      where "result_item e (i, r) = Inr (Some it)" by blast
    then show ?thesis by (rule result_item_emitted(2))
  qed
  with assms(3) obtain d where "site_domain e (JStr u) = Domain d" by auto
  then show ?thesis using assms(4) by (rule site_domain_allowed)
qed

theorem web_normalizers_drop_denylisted_witness:
  "normalize_results_tavily env0 tavily_mixed = Inr [tavily_mixed_item]
   \<and> w_url tavily_mixed_item = JStr ''https://www.example.com/post''
   \<and> urlparse env0 ''https://www.example.com/post''
       = Inr \<lparr>netloc = ''www.example.com'', path = ''/post''\<rparr>
   \<and> py_lower ''www.example.com'' \<notin> EXCLUDED_DOMAINS"
proof -
  have a: "normalize_results_tavily env0 tavily_mixed = Inr [tavily_mixed_item]" by code_simp
  have b: "w_url tavily_mixed_item = JStr ''https://www.example.com/post''"
    by (simp add: tavily_mixed_item_def)
  have c: "urlparse env0 ''https://www.example.com/post''
       = Inr \<lparr>netloc = ''www.example.com'', path = ''/post''\<rparr>" by code_simp
  from web_normalizers_drop_denylisted [of env0 tavily_mixed "[tavily_mixed_item]"
      tavily_mixed_item "''https://www.example.com/post''", OF disjI2 [OF a] _ b c]
  have "py_lower ''www.example.com'' \<notin> EXCLUDED_DOMAINS" by simp
  with a b c show ?thesis by simp
qed

text \<open>
  C6. The specification says that the date of every emitted item is null or a
  string of the shape \<^verbatim>\<open>YYYY-MM-DD\<close>. The general-web normalizer only cuts
  \<^verbatim>\<open>published_date\<close> to its first ten characters: \<^verbatim>\<open>2024/13/40\<close> is emitted
  as it is.
\<close>

theorem tavily_keeps_unvalidated_date:
  "normalize_results_tavily env0 tavily_plain = Inr [tavily_plain_item]
   \<and> w_date tavily_plain_item = JStr ''2024/13/40''
   \<and> \<not> iso_date (JStr ''2024/13/40'')"
proof -
  have "normalize_results_tavily env0 tavily_plain = Inr [tavily_plain_item]" by code_simp
  moreover have "\<not> iso_date (JStr ''2024/13/40'')" by code_simp
  ultimately show ?thesis by (simp add: tavily_plain_item_def)
qed

text \<open>
  C6, as the code has it. The citation normalizer emits a null date. In the
  output of the Reddit normalizer a date that is not falsy is a string of ten
  characters of the shape \<^verbatim>\<open>YYYY-MM-DD\<close>, given that the dates
  \<^verbatim>\<open>timestamp_to_date\<close> hands to the enrichment have that shape; and the date
  block of that normalizer turns a \<^verbatim>\<open>published_date\<close> of \<^verbatim>\<open>2024/13/40\<close> into
  None.
\<close>

theorem emitted_dates_shape:
  "(normalize_results_perplexity e response = Inr items \<longrightarrow> (\<forall>it\<in>set items. w_date it = JNull))
   \<and> (parse_reddit_response e response = Inr (ritems, urls) \<longrightarrow>
        (\<forall>v d. timestamp_to_date e v = Inr d \<longrightarrow> truthy d \<longrightarrow> iso_date d) \<longrightarrow>
        (\<forall>it\<in>set ritems. truthy (r_date it) \<longrightarrow> iso_date (r_date it)))
   \<and> (dict_get result ''published_date'' JNull = JStr ''2024/13/40'' \<longrightarrow>
        reddit_date e result = Inr JNull)"
proof (intro conjI impI ballI)
  fix it
  assume n: "normalize_results_perplexity e response = Inr items" and it: "it \<in> set items"
  from perplexity_item_origin [OF n it] obtain cc i
    where "citation_item e (get_content response) (length (citations_of response)) cc
             (i, citations_of response ! i) = Inr (Some it)" by blast
  then show "w_date it = JNull" by (rule citation_item_emitted(7))
next
  fix it'
  assume n: "parse_reddit_response e response = Inr (ritems, urls)"
    and ts: "\<forall>v d. timestamp_to_date e v = Inr d \<longrightarrow> truthy d \<longrightarrow> iso_date d"
    and it: "it' \<in> set ritems" and tr: "truthy (r_date it')"
  from parse_reddit_response_origin [OF n it] obtain i r it
    where c: "reddit_result_item e (i, r) = Inr (Some it)"
      and d: "r_date it' = r_date it
              \<or> (\<exists>v. timestamp_to_date e v = Inr (r_date it') \<and> truthy (r_date it'))" by blast
  from d show "iso_date (r_date it')"
  proof
    assume "r_date it' = r_date it"
    with reddit_result_item_emitted(6) [OF c] tr show ?thesis by simp
  next
    assume "\<exists>v. timestamp_to_date e v = Inr (r_date it') \<and> truthy (r_date it')"
    with ts show ?thesis by blast
  qed
next
  assume "dict_get result ''published_date'' JNull = JStr ''2024/13/40''"
  then show "reddit_date e result = Inr JNull"
    by (simp add: reddit_date_def trim_date_def py_str_def iso_match_def iso_shape_def is_digit_def)
qed

theorem emitted_dates_shape_witness:
  "normalize_results_perplexity env0 sonar_response = Inr sonar_items
   \<and> w_date (sonar_items ! 0) = JNull
   \<and> parse_reddit_response env0 reddit_posts
       = Inr ([post_hello\<lparr>r_date := JStr ''2024-01-15''\<rparr>, post_bye, post_dated],
              [r_url post_hello, r_url post_bye])
   \<and> truthy (r_date (post_hello\<lparr>r_date := JStr ''2024-01-15''\<rparr>))
   \<and> iso_date (r_date (post_hello\<lparr>r_date := JStr ''2024-01-15''\<rparr>))
   \<and> dict_get [(''published_date'', JStr ''2024/13/40'')] ''published_date'' JNull
       = JStr ''2024/13/40''
   \<and> reddit_date env0 [(''published_date'', JStr ''2024/13/40'')] = Inr JNull"
proof -
  have a: "normalize_results_perplexity env0 sonar_response = Inr sonar_items" by code_simp
  have b: "parse_reddit_response env0 reddit_posts
       = Inr ([post_hello\<lparr>r_date := JStr ''2024-01-15''\<rparr>, post_bye, post_dated],
              [r_url post_hello, r_url post_bye])" by code_simp
  have ts: "\<forall>v d. timestamp_to_date env0 v = Inr d \<longrightarrow> truthy d \<longrightarrow> iso_date d"
    by (auto simp: env0_def iso_date_def iso_shape_def is_digit_def split: json.splits)
  have g: "dict_get [(''published_date'', JStr ''2024/13/40'')] ''published_date'' JNull
       = JStr ''2024/13/40''" by (simp add: dict_get_def)
  have m: "sonar_items ! 0 \<in> set sonar_items" by (simp add: sonar_items_def)
  note shape = emitted_dates_shape [of env0]
  from shape [of sonar_response sonar_items] a m
  have "w_date (sonar_items ! 0) = JNull" by blast
  moreover from shape [of reddit_posts _ "[post_hello\<lparr>r_date := JStr ''2024-01-15''\<rparr>, post_bye, post_dated]"
      "[r_url post_hello, r_url post_bye]"] b ts
  have "truthy (r_date (post_hello\<lparr>r_date := JStr ''2024-01-15''\<rparr>)) \<longrightarrow>
        iso_date (r_date (post_hello\<lparr>r_date := JStr ''2024-01-15''\<rparr>))" by simp
  moreover from shape [of _ _ _ _ "[(''published_date'', JStr ''2024/13/40'')]"] g
  have "reddit_date env0 [(''published_date'', JStr ''2024/13/40'')] = Inr JNull" by blast
  ultimately show ?thesis using a b g by simp
qed







text \<open>
  C10. The specification says that the url of every item the Reddit normalizer
  emits is a string that holds \<^verbatim>\<open>reddit.com\<close>. The test
  \<^verbatim>\<open>"reddit.com" not in url\<close> is also passed by a list with the element
  \<^verbatim>\<open>reddit.com\<close>, and the item is emitted with the list as its url.
\<close>

theorem reddit_list_url_emitted:
  "parse_reddit_response env0 reddit_list_url
     = Inr ([reddit_list_url_item], [JList [JStr ''reddit.com'']])
   \<and> r_url reddit_list_url_item = JList [JStr ''reddit.com'']"
proof -
  have "parse_reddit_response env0 reddit_list_url
     = Inr ([reddit_list_url_item], [JList [JStr ''reddit.com'']])" by code_simp
  then show ?thesis by (simp add: reddit_list_url_item_def)
qed

end
